theory Spec2Isabelle
  imports Complex_Main
begin

section \<open>The host scene: data blocks, objects, files\<close>

text \<open>
  The script \<^verbatim>\<open>blender-export.py\<close> is a sequence of calls into the scripting interface of
  its host (\<^verbatim>\<open>bpy\<close>). The host state the script reads and writes is made explicit as a
  record that every operation takes and returns. Objects and data blocks are referred to
  by identifiers, as the script refers to them by reference; a reference to something
  that is no longer in the scene is an error value, as it is an exception in the host.

  What the host engine computes (the geometry an applied modifier produces, the key
  frames of an action) is opaque to the script: polygons and animation curves are values
  of type parameters, and the effect of applying a modifier is a function parameter
  \<open>engine\<close> of the operations that apply one.
\<close>

type_synonym ident = nat

datatype error = ReferenceError | AttributeError | KeyError | RuntimeError

text \<open>A data block of \<^verbatim>\<open>bpy.data\<close>: every one has a name and a count of its users.\<close>

record id_block =
  block_id :: ident
  block_name :: string
  users :: nat

record 'g mesh = id_block +
  polygons :: "'g list"

type_synonym armature = id_block

record 'k action = id_block +
  fcurves :: 'k

record modifier =
  mod_name :: string
  mod_type :: string
  ratio :: "real option"

record nla_strip =
  strip_name :: string
  frame_start :: int
  strip_action :: ident

record nla_track =
  track_name :: string
  mute :: bool
  strips :: "nla_strip list"

record anim_data =
  action :: "ident option"
  nla_tracks :: "nla_track list"

record object =
  oid :: ident
  name :: string
  otype :: string
  parent :: "ident option"
  data :: "ident option"
  modifiers :: "modifier list"
  animation_data :: "anim_data option"

text \<open>The keyword arguments of \<^verbatim>\<open>bpy.ops.export_scene.gltf\<close> as \<^verbatim>\<open>export_glb\<close> passes them.\<close>

record gltf_options =
  export_format :: string
  export_animations :: bool
  export_skins :: bool
  export_morph :: bool
  export_lights :: bool
  export_cameras :: bool
  export_extras :: bool
  export_draco_mesh_compression_enable :: bool
  export_draco_mesh_compression_level :: int
  export_image_format :: string

text \<open>A file the exporter has written: where, with which options, and the objects of the
  scene it serialised.\<close>

record glb_file =
  glb_path :: string
  glb_options :: gltf_options
  glb_objects :: "object list"

record ('g, 'k) scene =
  objects :: "object list"
  meshes :: "'g mesh list"
  armatures :: "armature list"
  actions :: "'k action list"
  selected :: "ident list"
  active :: "ident option"
  stdout :: "string list"
  written :: "glb_file list"

text \<open>
  What an FBX file holds, as far as the script can observe it after the import: a list of
  objects, each with its type, its parent (an index into the same file), its polygons when
  it is a mesh, the modifiers the importer gives it, and its animation: none, an
  animation-data container without an action, or a bound action (name and curves).
\<close>

datatype 'k fbx_anim = NoAnimData | NoAction | BoundAction string 'k

record ('g, 'k) fbx_object =
  fbx_name :: string
  fbx_type :: string
  fbx_parent :: "nat option"
  fbx_polygons :: "'g list"
  fbx_modifiers :: "modifier list"
  fbx_anim :: "'k fbx_anim"

type_synonym ('g, 'k) fbx_file = "('g, 'k) fbx_object list"

text \<open>What a path of the disk holds: something the FBX importer cannot read (an empty
  file, a text file, a directory), or FBX content.\<close>

datatype ('g, 'k) disk_file = NotFBX | FBX "('g, 'k) fbx_file"

text \<open>The files on disk: \<open>None\<close> where \<^verbatim>\<open>os.path.exists\<close> is false.\<close>

type_synonym ('g, 'k) filesystem = "string \<Rightarrow> ('g, 'k) disk_file option"

section \<open>Host operations\<close>

definition print :: "string \<Rightarrow> ('g, 'k) scene \<Rightarrow> ('g, 'k) scene" where
  "print line s = s\<lparr>stdout := stdout s @ [line]\<rparr>"

text \<open>\<^verbatim>\<open>os.path.join\<close> on a POSIX host.\<close>

definition path_join :: "string \<Rightarrow> string \<Rightarrow> string" where
  "path_join a b =
     (if b \<noteq> [] \<and> hd b = CHR ''/'' then b
      else if a = [] \<or> last a = CHR ''/'' then a @ b
      else a @ ''/'' @ b)"

definition get_object :: "('g, 'k) scene \<Rightarrow> ident \<Rightarrow> object option" where
  "get_object s i = find (\<lambda>ob. oid ob = i) (objects s)"

text \<open>\<^verbatim>\<open>bpy.context.selected_objects\<close>: the selected objects, in scene order.\<close>

definition selected_objects :: "('g, 'k) scene \<Rightarrow> object list" where
  "selected_objects s = filter (\<lambda>ob. oid ob \<in> set (selected s)) (objects s)"

text \<open>An identifier no block of the collection has.\<close>

definition fresh :: "ident list \<Rightarrow> ident" where
  "fresh ids = Suc (foldr max ids 0)"

text \<open>The host keeps the names within one collection apart (the data blocks of one kind,
  the modifiers of one object, the tracks of one object, the strips of one track): a name
  already taken gets the first free numbered suffix \<^verbatim>\<open>.001\<close>, \<^verbatim>\<open>.002\<close>, ... A name
  holds at most 63 bytes, and an assignment cuts a longer one.\<close>

definition digit3 :: "nat \<Rightarrow> string" where
  "digit3 k = map (\<lambda>d. char_of (48 + d)) [k div 100 mod 10, k div 10 mod 10, k mod 10]"

definition unique_name :: "string \<Rightarrow> string list \<Rightarrow> string" where
  "unique_name base taken =
     (if base \<notin> set taken then base
      else (case find (\<lambda>c. c \<notin> set taken)
                   (map (\<lambda>k. base @ ''.'' @ digit3 k) [1..<length taken + 2]) of
              None \<Rightarrow> base
            | Some c \<Rightarrow> c))"

definition assign_name :: "string \<Rightarrow> string list \<Rightarrow> string" where
  "assign_name nm taken = unique_name (take 63 nm) taken"

definition dec_users :: "ident \<Rightarrow> ('a id_block_scheme) list \<Rightarrow> ('a id_block_scheme) list" where
  "dec_users i bs = map (\<lambda>b. if block_id b = i then b\<lparr>users := users b - 1\<rparr> else b) bs"

definition inc_users :: "ident \<Rightarrow> ('a id_block_scheme) list \<Rightarrow> ('a id_block_scheme) list" where
  "inc_users i bs = map (\<lambda>b. if block_id b = i then b\<lparr>users := users b + 1\<rparr> else b) bs"

text \<open>The actions an object uses: the one bound to it and those of its strips.\<close>

definition action_refs :: "object \<Rightarrow> ident list" where
  "action_refs ob =
     (case animation_data ob of
        None \<Rightarrow> []
      | Some ad \<Rightarrow>
          (case action ad of None \<Rightarrow> [] | Some a \<Rightarrow> [a])
          @ concat (map (\<lambda>t. map strip_action (strips t)) (nla_tracks ad)))"

text \<open>
  Taking one object out of the scene, as the host does when it deletes it: the object
  leaves the object list, the selection and the active slot, its children lose their
  parent, and the blocks it used lose one user each. The blocks themselves stay in
  \<^verbatim>\<open>bpy.data\<close>.
\<close>

definition unlink_object :: "ident \<Rightarrow> ('g, 'k) scene \<Rightarrow> ('g, 'k) scene" where
  "unlink_object i s =
     (case get_object s i of
        None \<Rightarrow> s
      | Some ob \<Rightarrow>
          s\<lparr>objects := map (\<lambda>c. if parent c = Some i then c\<lparr>parent := None\<rparr> else c)
                          (filter (\<lambda>c. oid c \<noteq> i) (objects s)),
            meshes := (case data ob of
                         None \<Rightarrow> meshes s
                       | Some d \<Rightarrow> if otype ob = ''MESH'' then dec_users d (meshes s) else meshes s),
            armatures := (case data ob of
                            None \<Rightarrow> armatures s
                          | Some d \<Rightarrow> if otype ob = ''ARMATURE'' then dec_users d (armatures s)
                                      else armatures s),
            actions := foldr dec_users (action_refs ob) (actions s),
            selected := removeAll i (selected s),
            active := (if active s = Some i then None else active s)\<rparr>)"

text \<open>\<^verbatim>\<open>bpy.data.objects.remove(obj, do_unlink=True)\<close>: a reference to an object that is
  gone raises.\<close>

definition objects_remove :: "ident \<Rightarrow> ('g, 'k) scene \<Rightarrow> error + ('g, 'k) scene" where
  "objects_remove i s =
     (case get_object s i of
        None \<Rightarrow> Inl ReferenceError
      | Some ob \<Rightarrow> Inr (unlink_object i s))"

text \<open>\<^verbatim>\<open>bpy.ops.object.select_all(action='SELECT')\<close>\<close>

definition select_all_SELECT :: "('g, 'k) scene \<Rightarrow> ('g, 'k) scene" where
  "select_all_SELECT s = s\<lparr>selected := map oid (objects s)\<rparr>"

text \<open>\<^verbatim>\<open>bpy.ops.object.delete(use_global=False)\<close>: deletes the selected objects.\<close>

definition object_delete :: "('g, 'k) scene \<Rightarrow> ('g, 'k) scene" where
  "object_delete s = foldr unlink_object (selected s) s"

text \<open>\<^verbatim>\<open>mesh.select_set(state)\<close>\<close>

definition select_set :: "ident \<Rightarrow> bool \<Rightarrow> ('g, 'k) scene \<Rightarrow> ('g, 'k) scene" where
  "select_set i state s =
     (if state then (if i \<in> set (selected s) then s else s\<lparr>selected := selected s @ [i]\<rparr>)
      else s\<lparr>selected := removeAll i (selected s)\<rparr>)"

text \<open>
  \<^verbatim>\<open>bpy.ops.import_scene.fbx(filepath=...)\<close>. The importer deselects every object, adds
  the objects of the file to the scene with the data blocks they use (one mesh block per
  mesh object, one armature block per armature object, one action per bound action, each
  with the importing object as its one user), and leaves exactly the new objects
  selected. It creates no animation track. A path with no file raises, and so does a
  file that is not FBX.
\<close>

definition new_object ::
  "ident \<Rightarrow> ident \<Rightarrow> ident \<Rightarrow> ident \<Rightarrow> nat \<Rightarrow> nat \<Rightarrow> ('g, 'k) fbx_object \<Rightarrow> object" where
  "new_object ob mb ab cb n k fo =
     \<lparr>oid = ob + k,
      name = fbx_name fo,
      otype = fbx_type fo,
      parent = (case fbx_parent fo of
                  None \<Rightarrow> None
                | Some j \<Rightarrow> if j < n then Some (ob + j) else None),
      data = (if fbx_type fo = ''MESH'' then Some (mb + k)
              else if fbx_type fo = ''ARMATURE'' then Some (ab + k)
              else None),
      modifiers = fbx_modifiers fo,
      animation_data = (case fbx_anim fo of
                          NoAnimData \<Rightarrow> None
                        | NoAction \<Rightarrow> Some \<lparr>action = None, nla_tracks = []\<rparr>
                        | BoundAction nm cv \<Rightarrow> Some \<lparr>action = Some (cb + k), nla_tracks = []\<rparr>)\<rparr>"

fun new_objects ::
  "ident \<Rightarrow> ident \<Rightarrow> ident \<Rightarrow> ident \<Rightarrow> nat \<Rightarrow> nat \<Rightarrow> ('g, 'k) fbx_file \<Rightarrow> object list" where
  "new_objects ob mb ab cb n k [] = []"
| "new_objects ob mb ab cb n k (fo # fos) =
     new_object ob mb ab cb n k fo # new_objects ob mb ab cb n (Suc k) fos"

fun new_meshes :: "ident \<Rightarrow> nat \<Rightarrow> ('g, 'k) fbx_file \<Rightarrow> 'g mesh list" where
  "new_meshes mb k [] = []"
| "new_meshes mb k (fo # fos) =
     (if fbx_type fo = ''MESH''
      then [\<lparr>block_id = mb + k, block_name = fbx_name fo, users = 1,
              polygons = fbx_polygons fo\<rparr>]
      else [])
     @ new_meshes mb (Suc k) fos"

fun new_armatures :: "ident \<Rightarrow> nat \<Rightarrow> ('g, 'k) fbx_file \<Rightarrow> armature list" where
  "new_armatures ab k [] = []"
| "new_armatures ab k (fo # fos) =
     (if fbx_type fo = ''ARMATURE''
      then [\<lparr>block_id = ab + k, block_name = fbx_name fo, users = 1\<rparr>]
      else [])
     @ new_armatures ab (Suc k) fos"

fun new_actions :: "ident \<Rightarrow> nat \<Rightarrow> ('g, 'k) fbx_file \<Rightarrow> 'k action list" where
  "new_actions cb k [] = []"
| "new_actions cb k (fo # fos) =
     (case fbx_anim fo of
        BoundAction nm cv \<Rightarrow> [\<lparr>block_id = cb + k, block_name = nm, users = 1, fcurves = cv\<rparr>]
      | _ \<Rightarrow> [])
     @ new_actions cb (Suc k) fos"

definition imported_objects :: "('g, 'k) scene \<Rightarrow> ('g, 'k) fbx_file \<Rightarrow> object list" where
  "imported_objects s file =
     new_objects (fresh (map oid (objects s))) (fresh (map block_id (meshes s)))
       (fresh (map block_id (armatures s))) (fresh (map block_id (actions s)))
       (length file) 0 file"

definition import_scene_fbx ::
  "('g, 'k) filesystem \<Rightarrow> string \<Rightarrow> ('g, 'k) scene \<Rightarrow> error + ('g, 'k) scene" where
  "import_scene_fbx fs filepath s =
     (case fs filepath of
        None \<Rightarrow> Inl RuntimeError
      | Some NotFBX \<Rightarrow> Inl RuntimeError
      | Some (FBX file) \<Rightarrow>
          Inr (s\<lparr>objects := objects s @ imported_objects s file,
                 meshes := meshes s @ new_meshes (fresh (map block_id (meshes s))) 0 file,
                 armatures := armatures s
                    @ new_armatures (fresh (map block_id (armatures s))) 0 file,
                 actions := actions s @ new_actions (fresh (map block_id (actions s))) 0 file,
                 selected := map oid (imported_objects s file)\<rparr>))"

definition update_object :: "ident \<Rightarrow> (object \<Rightarrow> object) \<Rightarrow> ('g, 'k) scene \<Rightarrow> ('g, 'k) scene" where
  "update_object i f s = s\<lparr>objects := map (\<lambda>ob. if oid ob = i then f ob else ob) (objects s)\<rparr>"

text \<open>\<^verbatim>\<open>action.copy()\<close>: a new action block with the curves of the source; a fresh copy has
  no user yet.\<close>

definition action_copy :: "ident \<Rightarrow> ('g, 'k) scene \<Rightarrow> error + (ident \<times> ('g, 'k) scene)" where
  "action_copy a s =
     (case find (\<lambda>b. block_id b = a) (actions s) of
        None \<Rightarrow> Inl ReferenceError
      | Some src \<Rightarrow>
          Inr (fresh (map block_id (actions s)),
               s\<lparr>actions := actions s
                    @ [src\<lparr>block_id := fresh (map block_id (actions s)), users := 0\<rparr>]\<rparr>))"

text \<open>\<^verbatim>\<open>action.name = ...\<close>: the name goes to the action with the given identity,
  made unique among the names of the other actions.\<close>

definition set_action_names :: "ident \<Rightarrow> string \<Rightarrow> 'k action list \<Rightarrow> 'k action list" where
  "set_action_names a nm blocks =
     map (\<lambda>b. if block_id b = a
              then b\<lparr>block_name :=
                     assign_name nm
                       (map block_name (filter (\<lambda>c. block_id c \<noteq> a) blocks))\<rparr>
              else b) blocks"

definition set_action_name :: "ident \<Rightarrow> string \<Rightarrow> ('g, 'k) scene \<Rightarrow> ('g, 'k) scene" where
  "set_action_name a nm s = s\<lparr>actions := set_action_names a nm (actions s)\<rparr>"

text \<open>\<^verbatim>\<open>obj.animation_data_create()\<close>\<close>

definition animation_data_create :: "ident \<Rightarrow> ('g, 'k) scene \<Rightarrow> ('g, 'k) scene" where
  "animation_data_create i s =
     update_object i
       (\<lambda>ob. case animation_data ob of
                None \<Rightarrow> ob\<lparr>animation_data := Some \<lparr>action = None, nla_tracks = []\<rparr>\<rparr>
              | Some ad \<Rightarrow> ob) s"

text \<open>\<^verbatim>\<open>obj.animation_data.nla_tracks.new()\<close>: the new track is the last of the object's
  tracks, unmuted and empty; the result is its position. Without an animation-data
  container the attribute access raises.\<close>

definition nla_tracks_new :: "ident \<Rightarrow> ('g, 'k) scene \<Rightarrow> error + (nat \<times> ('g, 'k) scene)" where
  "nla_tracks_new i s =
     (case get_object s i of
        None \<Rightarrow> Inl ReferenceError
      | Some ob \<Rightarrow>
          (case animation_data ob of
             None \<Rightarrow> Inl AttributeError
           | Some ad \<Rightarrow>
               Inr (length (nla_tracks ad),
                    update_object i
                      (\<lambda>ob. ob\<lparr>animation_data := Some (ad\<lparr>nla_tracks := nla_tracks ad
                          @ [\<lparr>track_name = unique_name ''NlaTrack'' (map track_name (nla_tracks ad)),
                              mute = False, strips = []\<rparr>]\<rparr>)\<rparr>) s)))"

text \<open>Writing through a track reference: the track is the \<open>k\<close>-th of object \<open>i\<close>.\<close>

definition update_track ::
  "ident \<Rightarrow> nat \<Rightarrow> (nla_track \<Rightarrow> nla_track) \<Rightarrow> ('g, 'k) scene \<Rightarrow> ('g, 'k) scene" where
  "update_track i k f s =
     update_object i
       (\<lambda>ob. ob\<lparr>animation_data :=
                  map_option (\<lambda>ad. ad\<lparr>nla_tracks := (nla_tracks ad)[k := f (nla_tracks ad ! k)]\<rparr>)
                    (animation_data ob)\<rparr>) s"

text \<open>\<^verbatim>\<open>track.strips.new(name, start, action)\<close>: the strip uses the action.\<close>

definition strips_new ::
  "ident \<Rightarrow> nat \<Rightarrow> string \<Rightarrow> int \<Rightarrow> ident \<Rightarrow> ('g, 'k) scene \<Rightarrow> ('g, 'k) scene" where
  "strips_new i k nm start a s =
     (let s' = update_track i k
                 (\<lambda>t. t\<lparr>strips := strips t
                         @ [\<lparr>strip_name = assign_name nm (map strip_name (strips t)),
                             frame_start = start, strip_action = a\<rparr>]\<rparr>) s
      in s'\<lparr>actions := inc_users a (actions s')\<rparr>)"

text \<open>\<^verbatim>\<open>track.name = ...\<close>, for the \<open>k\<close>-th track of object \<open>i\<close>: the other tracks of the
  object keep their names.\<close>

definition set_track_name ::
  "ident \<Rightarrow> nat \<Rightarrow> string \<Rightarrow> ('g, 'k) scene \<Rightarrow> ('g, 'k) scene" where
  "set_track_name i k nm s =
     update_object i
       (\<lambda>ob. ob\<lparr>animation_data :=
                  map_option
                    (\<lambda>ad. ad\<lparr>nla_tracks := (nla_tracks ad)
                       [k := (nla_tracks ad ! k)
                          \<lparr>track_name :=
                             assign_name nm
                               (map track_name
                                  (take k (nla_tracks ad) @ drop (Suc k) (nla_tracks ad)))\<rparr>]\<rparr>)
                    (animation_data ob)\<rparr>) s"

text \<open>
  \<^verbatim>\<open>bpy.ops.object.modifier_apply(modifier=...)\<close> works on the active object: the first
  modifier of that name is handed to the engine, which rewrites the polygons of the
  object's mesh block, and leaves the modifier stack. The operator fails when there is
  no active mesh object with that modifier.
\<close>

definition modifier_apply ::
  "(modifier \<Rightarrow> 'g list \<Rightarrow> 'g list) \<Rightarrow> string \<Rightarrow> ('g, 'k) scene \<Rightarrow> error + ('g, 'k) scene" where
  "modifier_apply engine nm s =
     (case active s of
        None \<Rightarrow> Inl RuntimeError
      | Some i \<Rightarrow>
          (case get_object s i of
             None \<Rightarrow> Inl RuntimeError
           | Some ob \<Rightarrow>
               (case find (\<lambda>m. mod_name m = nm) (modifiers ob) of
                  None \<Rightarrow> Inl RuntimeError
                | Some md \<Rightarrow>
                    (case data ob of
                       None \<Rightarrow> Inl RuntimeError
                     | Some d \<Rightarrow>
                         if otype ob = ''MESH'' \<and> d \<in> set (map block_id (meshes s))
                         then Inr (s\<lparr>objects :=
                                       map (\<lambda>c. if oid c = i
                                                then c\<lparr>modifiers := remove1 md (modifiers c)\<rparr>
                                                else c) (objects s),
                                     meshes :=
                                       map (\<lambda>b. if block_id b = d
                                                then b\<lparr>polygons := engine md (polygons b)\<rparr>
                                                else b) (meshes s)\<rparr>)
                         else Inl RuntimeError))))"

text \<open>\<^verbatim>\<open>bpy.ops.object.modifier_add(type='DECIMATE')\<close>: a decimate modifier, named
  \<^verbatim>\<open>Decimate\<close> when that name is free, with the host's default ratio 1, goes to the end of
  the active object's stack.\<close>

definition modifier_add_DECIMATE :: "('g, 'k) scene \<Rightarrow> error + ('g, 'k) scene" where
  "modifier_add_DECIMATE s =
     (case active s of
        None \<Rightarrow> Inl RuntimeError
      | Some i \<Rightarrow>
          (case get_object s i of
             None \<Rightarrow> Inl RuntimeError
           | Some ob \<Rightarrow>
               Inr (update_object i
                      (\<lambda>c. c\<lparr>modifiers := modifiers c
                              @ [\<lparr>mod_name = unique_name ''Decimate'' (map mod_name (modifiers c)),
                                  mod_type = ''DECIMATE'', ratio = Some 1\<rparr>]\<rparr>) s)))"

fun update_first :: "('a \<Rightarrow> bool) \<Rightarrow> ('a \<Rightarrow> 'a) \<Rightarrow> 'a list \<Rightarrow> 'a list" where
  "update_first P f [] = []"
| "update_first P f (x # xs) = (if P x then f x # xs else x # update_first P f xs)"

text \<open>\<^verbatim>\<open>mesh.modifiers[nm].ratio = r\<close>: the lookup by name raises when no modifier has the
  name; only a decimate modifier has the attribute.\<close>

definition set_modifier_ratio ::
  "ident \<Rightarrow> string \<Rightarrow> real \<Rightarrow> ('g, 'k) scene \<Rightarrow> error + ('g, 'k) scene" where
  "set_modifier_ratio i nm r s =
     (case get_object s i of
        None \<Rightarrow> Inl ReferenceError
      | Some ob \<Rightarrow>
          (case find (\<lambda>m. mod_name m = nm) (modifiers ob) of
             None \<Rightarrow> Inl KeyError
           | Some md \<Rightarrow>
               if mod_type md = ''DECIMATE''
               then Inr (update_object i
                           (\<lambda>c. c\<lparr>modifiers := update_first (\<lambda>m. mod_name m = nm)
                                                (\<lambda>m. m\<lparr>ratio := Some r\<rparr>) (modifiers c)\<rparr>) s)
               else Inl AttributeError))"

text \<open>\<^verbatim>\<open>mesh.data.polygons\<close>\<close>

definition data_polygons :: "ident \<Rightarrow> ('g, 'k) scene \<Rightarrow> error + 'g list" where
  "data_polygons i s =
     (case get_object s i of
        None \<Rightarrow> Inl ReferenceError
      | Some ob \<Rightarrow>
          (case data ob of
             None \<Rightarrow> Inl AttributeError
           | Some d \<Rightarrow>
               (case find (\<lambda>b. block_id b = d) (meshes s) of
                  None \<Rightarrow> Inl ReferenceError
                | Some b \<Rightarrow> Inr (polygons b))))"


section \<open>The script\<close>



text \<open>The three loops of \<^verbatim>\<open>clear_scene\<close> each remove the blocks of one collection that have
  no user. The host's collection iterator has moved on before the loop body runs, so
  removing the block just visited leaves the iteration intact.\<close>

definition remove_orphans :: "('a id_block_scheme) list \<Rightarrow> ('a id_block_scheme) list" where
  "remove_orphans blocks = filter (\<lambda>block. \<not> users block = 0) blocks"

definition clear_scene :: "('g, 'k) scene \<Rightarrow> ('g, 'k) scene" where
  "clear_scene s =
     (let s1 = object_delete (select_all_SELECT s) in
      s1\<lparr>meshes := remove_orphans (meshes s1),
         armatures := remove_orphans (armatures s1),
         actions := remove_orphans (actions s1)\<rparr>)"


text \<open>Lines 103 to 117 of \<^verbatim>\<open>extract_animation\<close>: the block guarded by the test that the
  imported armature has animation data with an action.\<close>

definition attach_action ::
  "object \<Rightarrow> string \<Rightarrow> ident \<Rightarrow> ('g, 'k) scene \<Rightarrow> error + ('g, 'k) scene" where
  "attach_action imported_armature action_name target_armature s =
     (case animation_data imported_armature of
        None \<Rightarrow> Inr s
      | Some ad \<Rightarrow>
          (case action ad of
             None \<Rightarrow> Inr s
           | Some a \<Rightarrow>
               (case action_copy a s of
                  Inl e \<Rightarrow> Inl e
                | Inr (act, s1) \<Rightarrow>
                    (case get_object (set_action_name act action_name s1) target_armature of
                       None \<Rightarrow> Inl ReferenceError
                     | Some tgt \<Rightarrow>
                         (case nla_tracks_new target_armature
                                 (if animation_data tgt = None
                                  then animation_data_create target_armature
                                         (set_action_name act action_name s1)
                                  else set_action_name act action_name s1) of
                            Inl e \<Rightarrow> Inl e
                          | Inr (track, s4) \<Rightarrow>
                              Inr (print (''Added animation: '' @ action_name)
                                    (update_track target_armature track (\<lambda>t. t\<lparr>mute := True\<rparr>)
                                      (strips_new target_armature track action_name 0 act
                                        (set_track_name target_armature track action_name
                                           s4)))))))))"

text \<open>The last loop of \<^verbatim>\<open>extract_animation\<close>, over the list \<^verbatim>\<open>bpy.context.selected_objects\<close>
  as it is when the loop starts.\<close>

fun remove_objects :: "object list \<Rightarrow> ('g, 'k) scene \<Rightarrow> error + ('g, 'k) scene" where
  "remove_objects [] s = Inr s"
| "remove_objects (obj # rest) s =
     (case objects_remove (oid obj) s of
        Inl e \<Rightarrow> Inl e
      | Inr s' \<Rightarrow> remove_objects rest s')"

definition extract_animation ::
  "('g, 'k) filesystem \<Rightarrow> string \<Rightarrow> string \<Rightarrow> ident \<Rightarrow> ('g, 'k) scene \<Rightarrow> error + ('g, 'k) scene" where
  "extract_animation fs fbx_path action_name target_armature s =
     (case import_scene_fbx fs fbx_path s of
        Inl e \<Rightarrow> Inl e
      | Inr s1 \<Rightarrow>
          (case find (\<lambda>obj. otype obj = ''ARMATURE'') (selected_objects s1) of
             None \<Rightarrow> Inr (print (''Warning: No armature found in '' @ fbx_path) s1)
           | Some imported_armature \<Rightarrow>
               (case attach_action imported_armature action_name target_armature s1 of
                  Inl e \<Rightarrow> Inl e
                | Inr s2 \<Rightarrow> remove_objects (selected_objects s2) s2)))"

text \<open>The inner loop of \<^verbatim>\<open>optimize_model\<close>, over the modifiers the mesh has when the loop
  starts.\<close>

fun apply_modifiers ::
  "(modifier \<Rightarrow> 'g list \<Rightarrow> 'g list) \<Rightarrow> modifier list \<Rightarrow> ('g, 'k) scene \<Rightarrow> error + ('g, 'k) scene" where
  "apply_modifiers engine [] s = Inr s"
| "apply_modifiers engine (modifier # rest) s =
     (if mod_type modifier \<noteq> ''ARMATURE''
      then (case modifier_apply engine (mod_name modifier) s of
              Inl e \<Rightarrow> Inl e
            | Inr s' \<Rightarrow> apply_modifiers engine rest s')
      else apply_modifiers engine rest s)"

text \<open>Lines 145 to 147: add a decimate modifier, set its ratio, apply it.\<close>

definition decimate ::
  "(modifier \<Rightarrow> 'g list \<Rightarrow> 'g list) \<Rightarrow> ident \<Rightarrow> ('g, 'k) scene \<Rightarrow> error + ('g, 'k) scene" where
  "decimate engine mesh s =
     (case modifier_add_DECIMATE s of
        Inl e \<Rightarrow> Inl e
      | Inr s1 \<Rightarrow>
          (case set_modifier_ratio mesh ''Decimate'' 0.5 s1 of
             Inl e \<Rightarrow> Inl e
           | Inr s2 \<Rightarrow> modifier_apply engine ''Decimate'' s2))"

text \<open>The body of the outer loop of \<^verbatim>\<open>optimize_model\<close>, for one mesh.\<close>

definition optimize_mesh ::
  "(modifier \<Rightarrow> 'g list \<Rightarrow> 'g list) \<Rightarrow> ident \<Rightarrow> ('g, 'k) scene \<Rightarrow> error + ('g, 'k) scene" where
  "optimize_mesh engine mesh s =
     (case get_object s mesh of
        None \<Rightarrow> Inl ReferenceError
      | Some ob \<Rightarrow>
          (case apply_modifiers engine (modifiers ob)
                  (select_set mesh True (s\<lparr>active := Some mesh\<rparr>)) of
             Inl e \<Rightarrow> Inl e
           | Inr s2 \<Rightarrow>
               (case data_polygons mesh s2 of
                  Inl e \<Rightarrow> Inl e
                | Inr polys \<Rightarrow>
                    (case (if length polys > 10000 then decimate engine mesh s2 else Inr s2) of
                       Inl e \<Rightarrow> Inl e
                     | Inr s3 \<Rightarrow> Inr (select_set mesh False s3)))))"

fun optimize_meshes ::
  "(modifier \<Rightarrow> 'g list \<Rightarrow> 'g list) \<Rightarrow> ident list \<Rightarrow> ('g, 'k) scene \<Rightarrow> error + ('g, 'k) scene" where
  "optimize_meshes engine [] s = Inr s"
| "optimize_meshes engine (mesh # rest) s =
     (case optimize_mesh engine mesh s of
        Inl e \<Rightarrow> Inl e
      | Inr s' \<Rightarrow> optimize_meshes engine rest s')"





section \<open>Auxiliary notions for the statements\<close>

text \<open>Two lists of data blocks are the same up to the user counts when they agree after the
  counts are erased.\<close>

definition forget_users :: "('a id_block_scheme) list \<Rightarrow> ('a id_block_scheme) list" where
  "forget_users bs = map (\<lambda>b. b\<lparr>users := 0\<rparr>) bs"

text \<open>Every parent reference of the scene points to an object of the scene, as the host
  guarantees.\<close>

definition parents_closed :: "('g, 'k) scene \<Rightarrow> bool" where
  "parents_closed s =
     (\<forall>ob\<in>set (objects s). \<forall>p. parent ob = Some p \<longrightarrow> p \<in> oid ` set (objects s))"

text \<open>A mesh object that \<^verbatim>\<open>optimize_model\<close> can work on: its mesh block exists, the names of
  its modifiers are distinct (the host keeps them so), and no armature modifier of it is
  called \<^verbatim>\<open>Decimate\<close>, the name under which the script looks up the modifier it adds.\<close>

definition mesh_ready :: "('g, 'k) scene \<Rightarrow> object \<Rightarrow> bool" where
  "mesh_ready s ob =
     ((\<exists>d. data ob = Some d \<and> d \<in> block_id ` set (meshes s))
      \<and> distinct (map mod_name (modifiers ob))
      \<and> (\<forall>x\<in>set (modifiers ob). mod_type x = ''ARMATURE'' \<longrightarrow> mod_name x \<noteq> ''Decimate''))"

text \<open>Every animation track of every object is muted.\<close>

definition all_muted :: "object list \<Rightarrow> bool" where
  "all_muted obs =
     (\<forall>ob\<in>set obs. \<forall>ad. animation_data ob = Some ad \<longrightarrow> (\<forall>tr\<in>set (nla_tracks ad). mute tr))"

text \<open>What holds of the scene from the import of the character to the export, for the
  target armature \<open>t\<close>: objects have distinct identities and parents inside the scene, the
  target is there, its mesh children are ready for the optimisation, and every track is
  muted.\<close>

definition run_invariant :: "ident \<Rightarrow> ('g, 'k) scene \<Rightarrow> bool" where
  "run_invariant t s =
     (distinct (map oid (objects s)) \<and> parents_closed s \<and> t \<in> oid ` set (objects s)
      \<and> (\<forall>ob\<in>set (objects s). parent ob = Some t \<and> otype ob = ''MESH'' \<longrightarrow> mesh_ready s ob)
      \<and> all_muted (objects s))"

text \<open>The lines \<^verbatim>\<open>extract_animation\<close> prints for a file, and the lines the loop of \<^verbatim>\<open>main\<close>
  prints for one entry of \<^verbatim>\<open>ANIMATIONS\<close>, read off the files on disk.\<close>

definition extract_lines :: "('g, 'k) fbx_file \<Rightarrow> string \<Rightarrow> string \<Rightarrow> string list" where
  "extract_lines fl fbx_path action_name =
     (case find (\<lambda>fo. fbx_type fo = ''ARMATURE'') fl of
        None \<Rightarrow> [''Warning: No armature found in '' @ fbx_path]
      | Some fo \<Rightarrow>
          (case fbx_anim fo of
             BoundAction anm cv \<Rightarrow> [''Added animation: '' @ action_name]
           | _ \<Rightarrow> []))"

definition entry_lines ::
  "('g, 'k) filesystem \<Rightarrow> string \<Rightarrow> string \<times> string \<Rightarrow> string list" where
  "entry_lines fs script_dir entry =
     (case fs (path_join script_dir (fst entry @ ''.fbx'')) of
        None \<Rightarrow> [''Skipping (not found): '' @ fst entry]
      | Some NotFBX \<Rightarrow> [''Importing animation: '' @ fst entry]
      | Some (FBX fl) \<Rightarrow>
          (''Importing animation: '' @ fst entry)
          # extract_lines fl (path_join script_dir (fst entry @ ''.fbx'')) (snd entry))"

text \<open>A character file the run can complete on: it holds an armature, and its meshes come
  with modifier stacks as the host builds them (distinct names, no armature modifier
  called \<^verbatim>\<open>Decimate\<close>).\<close>

definition valid_character :: "('g, 'k) fbx_file \<Rightarrow> bool" where
  "valid_character fl =
     ((\<exists>fo\<in>set fl. fbx_type fo = ''ARMATURE'')
      \<and> (\<forall>fo\<in>set fl. fbx_type fo = ''MESH'' \<longrightarrow>
            distinct (map mod_name (fbx_modifiers fo))
            \<and> (\<forall>x\<in>set (fbx_modifiers fo). mod_type x = ''ARMATURE'' \<longrightarrow> mod_name x \<noteq> ''Decimate'')))"

section \<open>Concrete inputs\<close>



definition armature_modifier :: modifier where
  "armature_modifier = \<lparr>mod_name = ''Armature'', mod_type = ''ARMATURE'', ratio = None\<rparr>"

definition body_mesh :: "(unit, nat) fbx_object" where
  "body_mesh =
     \<lparr>fbx_name = ''Body'', fbx_type = ''MESH'', fbx_parent = Some 0,
      fbx_polygons = [(), (), ()], fbx_modifiers = [armature_modifier], fbx_anim = NoAnimData\<rparr>"

definition character_file :: "(unit, nat) fbx_file" where
  "character_file =
     [\<lparr>fbx_name = ''Armature'', fbx_type = ''ARMATURE'', fbx_parent = None, fbx_polygons = [],
       fbx_modifiers = [], fbx_anim = NoAnimData\<rparr>,
      body_mesh]"

text \<open>An animation file as the usage notes describe it: a skeleton with a bound action,
  and its skin.\<close>

definition freestyle_file :: "(unit, nat) fbx_file" where
  "freestyle_file =
     [\<lparr>fbx_name = ''Armature'', fbx_type = ''ARMATURE'', fbx_parent = None, fbx_polygons = [],
       fbx_modifiers = [], fbx_anim = BoundAction ''Armature|mixamo.com|Layer0'' 7\<rparr>,
      body_mesh]"

text \<open>A file with a skeleton that carries no animation, and a file with a mesh only.\<close>

definition still_file :: "(unit, nat) fbx_file" where
  "still_file =
     [\<lparr>fbx_name = ''Armature'', fbx_type = ''ARMATURE'', fbx_parent = None, fbx_polygons = [],
       fbx_modifiers = [], fbx_anim = NoAnimData\<rparr>,
      body_mesh]"




text \<open>The scene as the import of \<open>character_file\<close> into an empty scene leaves it, with
  the armature renamed.\<close>

definition character_scene :: "(unit, nat) scene" where
  "character_scene =
     \<lparr>objects =
        [\<lparr>oid = 1, name = ''Swimmer'', otype = ''ARMATURE'', parent = None, data = Some 1,
          modifiers = [], animation_data = None\<rparr>,
         \<lparr>oid = 2, name = ''Body'', otype = ''MESH'', parent = Some 1, data = Some 2,
          modifiers = [armature_modifier], animation_data = None\<rparr>],
      meshes = [\<lparr>block_id = 2, block_name = ''Body'', users = 1, polygons = [(), (), ()]\<rparr>],
      armatures = [\<lparr>block_id = 1, block_name = ''Armature'', users = 1\<rparr>],
      actions = [], selected = [1, 2], active = None, stdout = [], written = []\<rparr>"

definition freestyle_only :: "(unit, nat) filesystem" where
  "freestyle_only p = (if p = ''/models/swim_freestyle.fbx'' then Some (FBX freestyle_file) else None)"

definition still_only :: "(unit, nat) filesystem" where
  "still_only p = (if p = ''/models/swim_freestyle.fbx'' then Some (FBX still_file) else None)"


section \<open>Facts about the importer\<close>

lemma foldr_max_ge: "x \<in> set ids \<Longrightarrow> x \<le> foldr max ids (0::nat)"
  by (induction ids) auto

lemma fresh_gt: "x \<in> set ids \<Longrightarrow> x < fresh ids"
  unfolding fresh_def using foldr_max_ge [of x ids] by simp

lemma find_append_if:
  "find P (xs @ ys) = (case find P xs of None \<Rightarrow> find P ys | Some x \<Rightarrow> Some x)"
  by (induction xs) auto

lemma map_oid_new_objects:
  "map oid (new_objects ob mb ab cb n k fl) = map (\<lambda>j. ob + j) [k..<k + length fl]"
proof (induction fl arbitrary: k)
  case Nil
  then show ?case by simp
next
  case (Cons fo fos)
  have "[k..<k + length (fo # fos)] = k # [Suc k..<Suc k + length fos]"
    by (subst upt_rec) simp
  then show ?case using Cons.IH [of "Suc k"] by (simp add: new_object_def)
qed

lemma length_new_objects [simp]: "length (new_objects ob mb ab cb n k fl) = length fl"
  by (induction fl arbitrary: k) auto

lemma oid_imported_ge:
  "ob \<in> set (imported_objects s fl) \<Longrightarrow> fresh (map oid (objects s)) \<le> oid ob"
proof -
  assume "ob \<in> set (imported_objects s fl)"
  then have "oid ob \<in> set (map oid (imported_objects s fl))" by simp
  then show ?thesis unfolding imported_objects_def map_oid_new_objects by auto
qed

lemma distinct_imported: "distinct (map oid (imported_objects s fl))"
  unfolding imported_objects_def map_oid_new_objects
  by (simp add: distinct_map inj_on_def)

lemma imported_not_old:
  "ob \<in> set (objects s) \<Longrightarrow> oid ob \<notin> set (map oid (imported_objects s fl))"
proof
  assume a: "ob \<in> set (objects s)" and b: "oid ob \<in> set (map oid (imported_objects s fl))"
  from a have "oid ob < fresh (map oid (objects s))" by (intro fresh_gt) simp
  moreover from b obtain nb where "nb \<in> set (imported_objects s fl)" "oid nb = oid ob" by auto
  then have "fresh (map oid (objects s)) \<le> oid ob" using oid_imported_ge by metis
  ultimately show False by simp
qed

lemma parent_new_objects:
  "ob \<in> set (new_objects b mb ab cb n k fl) \<Longrightarrow> parent ob = Some p \<Longrightarrow> \<exists>j<n. p = b + j"
  by (induction fl arbitrary: k) (auto simp: new_object_def split: option.splits if_splits)

lemma parent_imported:
  assumes "ob \<in> set (imported_objects s fl)" "parent ob = Some p"
  shows "p \<in> set (map oid (imported_objects s fl))"
proof -
  from assms obtain j where "j < length fl" "p = fresh (map oid (objects s)) + j"
    unfolding imported_objects_def using parent_new_objects by blast
  then show ?thesis unfolding imported_objects_def map_oid_new_objects by auto
qed

lemma find_new_objects_None:
  "(find (\<lambda>ob. otype ob = T) (new_objects b mb ab cb n k fl) = None)
     = (find (\<lambda>fo. fbx_type fo = T) fl = None)"
  by (induction fl arbitrary: k) (auto simp: new_object_def)

lemma find_new_objects_Some:
  "find (\<lambda>fo. fbx_type fo = T) fl = Some fo \<Longrightarrow>
     \<exists>j<length fl. find (\<lambda>ob. otype ob = T) (new_objects b mb ab cb n k fl)
         = Some (new_object b mb ab cb n (k + j) fo)
       \<and> (\<forall>nm cv. fbx_anim fo = BoundAction nm cv \<longrightarrow>
            find (\<lambda>blk. block_id blk = cb + (k + j)) (new_actions cb k fl)
              = Some \<lparr>block_id = cb + (k + j), block_name = nm, users = 1, fcurves = cv\<rparr>)"
proof (induction fl arbitrary: k)
  case Nil
  then show ?case by simp
next
  case (Cons x xs)
  show ?case
  proof (cases "fbx_type x = T")
    case True
    with Cons.prems have "x = fo" by simp
    with True show ?thesis
      by (intro exI [of _ 0]) (auto simp: new_object_def find_append_if)
  next
    case False
    with Cons.prems have "find (\<lambda>fo. fbx_type fo = T) xs = Some fo" by simp
    from Cons.IH [OF this, of "Suc k"] obtain j where j: "j < length xs"
      "find (\<lambda>ob. otype ob = T) (new_objects b mb ab cb n (Suc k) xs)
         = Some (new_object b mb ab cb n (Suc k + j) fo)"
      "\<forall>nm cv. fbx_anim fo = BoundAction nm cv \<longrightarrow>
            find (\<lambda>blk. block_id blk = cb + (Suc k + j)) (new_actions cb (Suc k) xs)
              = Some \<lparr>block_id = cb + (Suc k + j), block_name = nm, users = 1, fcurves = cv\<rparr>"
      by blast
    show ?thesis
      using False j
      by (intro exI [of _ "Suc j"]) (auto simp: new_object_def find_append_if split: fbx_anim.splits)
  qed
qed

lemma selected_objects_new:
  assumes "objects s = old @ new" "selected s = map oid new"
    and "\<forall>ob\<in>set old. oid ob \<notin> set (map oid new)"
  shows "selected_objects s = new"
proof -
  have "filter (\<lambda>ob. oid ob \<in> set (map oid new)) old = []"
    using assms(3) by (auto simp: filter_empty_conv)
  moreover have "filter (\<lambda>ob. oid ob \<in> set (map oid new)) new = new"
    by (auto simp: filter_id_conv)
  ultimately show ?thesis using assms(1,2) by (simp add: selected_objects_def)
qed

section \<open>Attaching a track and removing the imported objects\<close>

lemma find_map_same:
  "(\<And>x. P (g x) = P x) \<Longrightarrow> find P (map g xs) = map_option g (find P xs)"
  by (induction xs) auto

lemma find_update_same:
  "(\<And>x. oid (f x) = oid x) \<Longrightarrow>
     find (\<lambda>ob. oid ob = t) (map (\<lambda>ob. if oid ob = t then f ob else ob) xs)
       = map_option f (find (\<lambda>ob. oid ob = t) xs)"
  by (induction xs) auto

lemma attach_action_unbound:
  "animation_data a_ob = None \<or> (\<exists>ad. animation_data a_ob = Some ad \<and> action ad = None)
     \<Longrightarrow> attach_action a_ob nm t s = Inr s"
  by (auto simp: attach_action_def)

lemma attach_action_bound:
  assumes "animation_data a_ob = Some ad0" "action ad0 = Some c0"
    and "find (\<lambda>b. block_id b = c0) (actions s) = Some src"
    and "get_object s t = Some tgt"
  shows "attach_action a_ob nm t s =
    Inr (s\<lparr>objects :=
             map (\<lambda>ob. if oid ob = t
                then ob\<lparr>animation_data := Some
                  \<lparr>action = (case animation_data tgt of None \<Rightarrow> None | Some ad \<Rightarrow> action ad),
                   nla_tracks = (case animation_data tgt of None \<Rightarrow> [] | Some ad \<Rightarrow> nla_tracks ad)
                     @ [\<lparr>track_name = assign_name nm (map track_name
                           (case animation_data tgt of None \<Rightarrow> [] | Some ad \<Rightarrow> nla_tracks ad)),
                         mute = True,
                         strips = [\<lparr>strip_name = assign_name nm [], frame_start = 0,
                                    strip_action = fresh (map block_id (actions s))\<rparr>]\<rparr>]\<rparr>\<rparr>
                else ob) (objects s),
           actions := inc_users (fresh (map block_id (actions s)))
             (set_action_names (fresh (map block_id (actions s))) nm
                (actions s @ [src\<lparr>block_id := fresh (map block_id (actions s)), users := 0\<rparr>])),
           stdout := stdout s @ [''Added animation: '' @ nm]\<rparr>)"
proof (cases "animation_data tgt")
  case None
  then show ?thesis using assms
    by (simp add: attach_action_def action_copy_def set_action_name_def get_object_def
        animation_data_create_def nla_tracks_new_def update_object_def update_track_def
        set_track_name_def set_action_names_def
        strips_new_def print_def Let_def find_update_same comp_def inc_users_def
        split: option.split cong: if_cong)
next
  case (Some ad)
  then show ?thesis using assms
    by (simp add: attach_action_def action_copy_def set_action_name_def get_object_def
        animation_data_create_def nla_tracks_new_def update_object_def update_track_def
        set_track_name_def set_action_names_def
        strips_new_def print_def Let_def find_update_same comp_def inc_users_def
        split: option.split cong: if_cong)
qed

lemma assign_name_free: "take 63 nm \<notin> set taken \<Longrightarrow> assign_name nm taken = take 63 nm"
  by (simp add: assign_name_def unique_name_def)

lemma assign_name_Nil [simp]: "assign_name nm [] = take 63 nm"
  by (simp add: assign_name_free)

lemma set_action_names_last:
  assumes "\<forall>b\<in>set old. block_id b \<noteq> c" and "block_id x = c"
  shows "set_action_names c nm (old @ [x])
     = old @ [x\<lparr>block_name := assign_name nm (map block_name old)\<rparr>]"
proof -
  have f: "filter (\<lambda>y. block_id y \<noteq> c) old = old"
    using assms(1) by (intro filter_True) simp
  have m: "map (\<lambda>b. if block_id b = c then b\<lparr>block_name := X\<rparr> else b) old = old" for X
    using assms(1) by (intro map_idI) simp
  show ?thesis
    unfolding set_action_names_def map_append filter_append f
    using assms(2) by (simp add: m)
qed

lemma forget_users_dec [simp]: "forget_users (dec_users i bs) = forget_users bs"
  by (simp add: forget_users_def dec_users_def)

lemma forget_users_inc [simp]: "forget_users (inc_users i bs) = forget_users bs"
  by (simp add: forget_users_def inc_users_def)

lemma forget_users_foldr_dec [simp]: "forget_users (foldr dec_users is bs) = forget_users bs"
  by (induction "is") auto

lemma forget_users_append [simp]:
  "forget_users (xs @ ys) = forget_users xs @ forget_users ys"
  by (simp add: forget_users_def)

lemma unlink_first_new:
  assumes "objects s = old @ y # rest"
    and "\<forall>ob\<in>set old. oid ob \<noteq> oid y \<and> parent ob \<noteq> Some (oid y)"
    and "oid y \<notin> set (map oid rest)"
  shows "objects_remove (oid y) s = Inr (unlink_object (oid y) s)"
    and "objects (unlink_object (oid y) s)
           = old @ map (\<lambda>c. if parent c = Some (oid y) then c\<lparr>parent := None\<rparr> else c) rest"
    and "stdout (unlink_object (oid y) s) = stdout s"
    and "written (unlink_object (oid y) s) = written s"
    and "selected (unlink_object (oid y) s) = removeAll (oid y) (selected s)"
    and "forget_users (meshes (unlink_object (oid y) s)) = forget_users (meshes s)"
    and "forget_users (armatures (unlink_object (oid y) s)) = forget_users (armatures s)"
    and "forget_users (actions (unlink_object (oid y) s)) = forget_users (actions s)"
proof -
  have f: "find (\<lambda>ob. oid ob = oid y) (old @ y # rest) = Some y"
    using assms(2) by (induction old) auto
  then have g: "get_object s (oid y) = Some y" by (simp add: get_object_def assms(1))
  show "objects_remove (oid y) s = Inr (unlink_object (oid y) s)"
    by (simp add: objects_remove_def g)
  have "filter (\<lambda>c. oid c \<noteq> oid y) old = old"
    using assms(2) by (auto simp: filter_id_conv)
  moreover have "filter (\<lambda>c. oid c \<noteq> oid y) rest = rest"
    using assms(3) by (auto simp: filter_id_conv image_iff)
  moreover have "map (\<lambda>c. if parent c = Some (oid y) then c\<lparr>parent := None\<rparr> else c) old = old"
    using assms(2) by (auto simp: map_idI)
  ultimately show "objects (unlink_object (oid y) s)
           = old @ map (\<lambda>c. if parent c = Some (oid y) then c\<lparr>parent := None\<rparr> else c) rest"
    by (simp add: unlink_object_def g assms(1))
  show "stdout (unlink_object (oid y) s) = stdout s"
    and "written (unlink_object (oid y) s) = written s"
    and "selected (unlink_object (oid y) s) = removeAll (oid y) (selected s)"
    and "forget_users (meshes (unlink_object (oid y) s)) = forget_users (meshes s)"
    and "forget_users (armatures (unlink_object (oid y) s)) = forget_users (armatures s)"
    and "forget_users (actions (unlink_object (oid y) s)) = forget_users (actions s)"
    by (simp_all add: unlink_object_def g split: option.split)
qed

lemma remove_objects_new:
  assumes "map oid L = map oid N" "objects s = old @ N" "distinct (map oid N)"
    and "\<forall>ob\<in>set old. oid ob \<notin> set (map oid N)
           \<and> (\<forall>p. parent ob = Some p \<longrightarrow> p \<notin> set (map oid N))"
  shows "\<exists>s'. remove_objects L s = Inr s' \<and> objects s' = old \<and> stdout s' = stdout s
           \<and> written s' = written s
           \<and> selected s' = filter (\<lambda>i. i \<notin> set (map oid N)) (selected s)
           \<and> forget_users (meshes s') = forget_users (meshes s)
           \<and> forget_users (armatures s') = forget_users (armatures s)
           \<and> forget_users (actions s') = forget_users (actions s)"
  using assms
proof (induction L arbitrary: N s)
  case Nil
  then show ?case by simp
next
  case (Cons x L)
  from Cons.prems(1) obtain y rest where N: "N = y # rest" "oid y = oid x" "map oid L = map oid rest"
    by (cases N) auto
  let ?clear = "\<lambda>c. if parent c = Some (oid y) then c\<lparr>parent := None\<rparr> else c"
  let ?s1 = "unlink_object (oid y) s"
  have a: "objects s = old @ y # rest" using Cons.prems(2) N by simp
  have b: "\<forall>ob\<in>set old. oid ob \<noteq> oid y \<and> parent ob \<noteq> Some (oid y)"
    using Cons.prems(4) N by auto
  have c: "oid y \<notin> set (map oid rest)" using Cons.prems(3) N by simp
  note u = unlink_first_new [OF a b c]
  have m: "map oid (map ?clear rest) = map oid rest" by (induction rest) auto
  have "\<exists>s'. remove_objects L ?s1 = Inr s' \<and> objects s' = old \<and> stdout s' = stdout ?s1
           \<and> written s' = written ?s1
           \<and> selected s' = filter (\<lambda>i. i \<notin> set (map oid (map ?clear rest))) (selected ?s1)
           \<and> forget_users (meshes s') = forget_users (meshes ?s1)
           \<and> forget_users (armatures s') = forget_users (armatures ?s1)
           \<and> forget_users (actions s') = forget_users (actions ?s1)"
  proof (rule Cons.IH)
    show "map oid L = map oid (map ?clear rest)" unfolding m using N(3) by simp
    show "objects ?s1 = old @ map ?clear rest" by (rule u(2))
    show "distinct (map oid (map ?clear rest))" unfolding m using Cons.prems(3) N by simp
    show "\<forall>ob\<in>set old. oid ob \<notin> set (map oid (map ?clear rest))
           \<and> (\<forall>p. parent ob = Some p \<longrightarrow> p \<notin> set (map oid (map ?clear rest)))"
      using Cons.prems(4) N unfolding m by auto
  qed
  then obtain s' where s': "remove_objects L ?s1 = Inr s'" "objects s' = old"
    "stdout s' = stdout ?s1" "written s' = written ?s1"
    "selected s' = filter (\<lambda>i. i \<notin> set (map oid (map ?clear rest))) (selected ?s1)"
    "forget_users (meshes s') = forget_users (meshes ?s1)"
    "forget_users (armatures s') = forget_users (armatures ?s1)"
    "forget_users (actions s') = forget_users (actions ?s1)"
    by blast
  have "filter (\<lambda>i. i \<notin> set (map oid rest)) (removeAll (oid y) xs)
               = filter (\<lambda>i. i \<notin> set (map oid (y # rest))) xs" for xs
    by (induction xs) auto
  then have sel: "filter (\<lambda>i. i \<notin> set (map oid rest)) (removeAll (oid y) (selected s))
               = filter (\<lambda>i. i \<notin> set (map oid N)) (selected s)"
    unfolding N by blast
  have "remove_objects (x # L) s = Inr s'"
    using u(1) s'(1) N(2) by simp
  then show ?case
    using s' u sel unfolding m by auto
qed

section \<open>Resetting the scene\<close>

lemma unlink_object_frame [simp]:
  "stdout (unlink_object i s) = stdout s" "written (unlink_object i s) = written s"
  by (simp_all add: unlink_object_def split: option.split)

lemma unlink_object_oids:
  "oid ` set (objects (unlink_object i s)) = oid ` set (objects s) - {i}"
proof (cases "get_object s i")
  case None
  then have "i \<notin> oid ` set (objects s)"
    by (auto simp: get_object_def find_None_iff)
  with None show ?thesis by (simp add: unlink_object_def)
next
  case (Some ob)
  have m: "map oid (map (\<lambda>c. if parent c = Some i then c\<lparr>parent := None\<rparr> else c) xs)
             = map oid xs" for xs
    by (induction xs) auto
  have "oid ` set (map (\<lambda>c. if parent c = Some i then c\<lparr>parent := None\<rparr> else c)
                  (filter (\<lambda>c. oid c \<noteq> i) (objects s)))
          = oid ` set (filter (\<lambda>c. oid c \<noteq> i) (objects s))"
    using m [of "filter (\<lambda>c. oid c \<noteq> i) (objects s)"] by (metis set_map)
  also have "\<dots> = oid ` set (objects s) - {i}" by auto
  finally show ?thesis using Some by (simp add: unlink_object_def)
qed

lemma foldr_unlink_frame [simp]:
  "stdout (foldr unlink_object is s) = stdout s" "written (foldr unlink_object is s) = written s"
  by (induction "is") auto

lemma foldr_unlink_oids:
  "oid ` set (objects (foldr unlink_object is s)) = oid ` set (objects s) - set is"
  by (induction "is") (auto simp: unlink_object_oids)

lemma clear_scene_frame [simp]:
  "stdout (clear_scene s) = stdout s" "written (clear_scene s) = written s"
  by (simp_all add: clear_scene_def Let_def object_delete_def select_all_SELECT_def)

lemma clear_scene_objects [simp]: "objects (clear_scene s) = []"
proof -
  have "oid ` set (objects (object_delete (select_all_SELECT s))) = {}"
    unfolding object_delete_def using foldr_unlink_oids [of "selected (select_all_SELECT s)" "select_all_SELECT s"]
    by (simp add: select_all_SELECT_def)
  then show ?thesis by (simp add: clear_scene_def Let_def)
qed

lemma print_simps [simp]:
  "stdout (print l s) = stdout s @ [l]" "written (print l s) = written s"
  "objects (print l s) = objects s" "meshes (print l s) = meshes s"
  "armatures (print l s) = armatures s" "actions (print l s) = actions s"
  "selected (print l s) = selected s" "active (print l s) = active s"
  by (simp_all add: print_def)

lemma selected_objects_import:
  "fs p = Some (FBX fl) \<Longrightarrow> import_scene_fbx fs p s = Inr s' \<Longrightarrow>
     selected_objects s' = imported_objects s fl"
  by (auto simp: import_scene_fbx_def intro!: selected_objects_new imported_not_old)

lemma find_imported_None:
  "(find (\<lambda>ob. otype ob = T) (imported_objects s fl) = None)
     = (\<forall>fo\<in>set fl. fbx_type fo \<noteq> T)"
  unfolding imported_objects_def find_new_objects_None by (auto simp: find_None_iff)

section \<open>One animation entry\<close>

lemma find_append_new:
  "\<forall>x\<in>set old. \<not> P x \<Longrightarrow> find P (old @ new) = find P new"
  by (induction old) auto

lemma find_append_old:
  "find P old = Some x \<Longrightarrow> find P (old @ new) = Some x"
  by (induction old) (auto split: if_splits)

lemma old_not_imported:
  assumes "parents_closed s" "ob \<in> set (objects s)"
  shows "oid ob \<notin> set (map oid (imported_objects s fl))
     \<and> (\<forall>p. parent ob = Some p \<longrightarrow> p \<notin> set (map oid (imported_objects s fl)))"
proof (intro conjI allI impI)
  show "oid ob \<notin> set (map oid (imported_objects s fl))" using assms(2) by (rule imported_not_old)
next
  fix p assume "parent ob = Some p"
  with assms obtain q where "q \<in> set (objects s)" "oid q = p"
    unfolding parents_closed_def by blast
  then show "p \<notin> set (map oid (imported_objects s fl))" using imported_not_old by blast
qed

lemma extract_animation_no_armature:
  assumes "fs p = Some (FBX fl)" "\<forall>fo\<in>set fl. fbx_type fo \<noteq> ''ARMATURE''"
  shows "\<exists>s1. import_scene_fbx fs p s = Inr s1
     \<and> extract_animation fs p nm t s = Inr (print (''Warning: No armature found in '' @ p) s1)"
proof -
  obtain s1 where s1: "import_scene_fbx fs p s = Inr s1"
    using assms(1) by (simp add: import_scene_fbx_def)
  have "selected_objects s1 = imported_objects s fl"
    using selected_objects_import [OF assms(1) s1] .
  then have "find (\<lambda>obj. otype obj = ''ARMATURE'') (selected_objects s1) = None"
    using assms(2) by (simp add: find_imported_None)
  then show ?thesis using s1 by (simp add: extract_animation_def)
qed

lemma imported_armature:
  assumes "find (\<lambda>fo. fbx_type fo = ''ARMATURE'') fl = Some fo"
  shows "\<exists>a_ob. find (\<lambda>ob. otype ob = ''ARMATURE'') (imported_objects s fl) = Some a_ob
     \<and> (fbx_anim fo = NoAnimData \<longrightarrow> animation_data a_ob = None)
     \<and> (fbx_anim fo = NoAction \<longrightarrow> animation_data a_ob = Some \<lparr>action = None, nla_tracks = []\<rparr>)
     \<and> (\<forall>anm cv. fbx_anim fo = BoundAction anm cv \<longrightarrow>
           (\<exists>c0. animation_data a_ob = Some \<lparr>action = Some c0, nla_tracks = []\<rparr>
              \<and> fresh (map block_id (actions s)) \<le> c0
              \<and> find (\<lambda>b. block_id b = c0) (new_actions (fresh (map block_id (actions s))) 0 fl)
                   = Some \<lparr>block_id = c0, block_name = anm, users = 1, fcurves = cv\<rparr>))"
proof -
  from find_new_objects_Some [OF assms, of "fresh (map oid (objects s))"
      "fresh (map block_id (meshes s))" "fresh (map block_id (armatures s))"
      "fresh (map block_id (actions s))" "length fl" 0]
  obtain j where j: "find (\<lambda>ob. otype ob = ''ARMATURE'') (imported_objects s fl)
         = Some (new_object (fresh (map oid (objects s))) (fresh (map block_id (meshes s)))
             (fresh (map block_id (armatures s))) (fresh (map block_id (actions s)))
             (length fl) (0 + j) fo)"
    "\<forall>nm cv. fbx_anim fo = BoundAction nm cv \<longrightarrow>
        find (\<lambda>blk. block_id blk = fresh (map block_id (actions s)) + (0 + j))
          (new_actions (fresh (map block_id (actions s))) 0 fl)
        = Some \<lparr>block_id = fresh (map block_id (actions s)) + (0 + j), block_name = nm,
                 users = 1, fcurves = cv\<rparr>"
    unfolding imported_objects_def by blast
  show ?thesis
    using j by (auto simp: new_object_def)
qed


lemma extract_animation_after_attach:
  assumes fl: "fs p = Some (FBX fl)" and pc: "parents_closed s"
    and s1: "import_scene_fbx fs p s = Inr s1"
    and a: "find (\<lambda>ob. otype ob = ''ARMATURE'') (imported_objects s fl) = Some a_ob"
    and s2: "attach_action a_ob nm t s1 = Inr s2" "selected s2 = selected s1"
      "objects s2 = map (\<lambda>ob. if oid ob = t then f ob else ob) (objects s1)"
      "\<forall>ob. oid (f ob) = oid ob \<and> parent (f ob) = parent ob"
  shows "\<exists>s'. extract_animation fs p nm t s = Inr s'
          \<and> objects s' = map (\<lambda>ob. if oid ob = t then f ob else ob) (objects s)
          \<and> stdout s' = stdout s2 \<and> written s' = written s2 \<and> selected s' = []
          \<and> forget_users (meshes s') = forget_users (meshes s2)
          \<and> forget_users (armatures s') = forget_users (armatures s2)
          \<and> forget_users (actions s') = forget_users (actions s2)"
proof -
  let ?N = "imported_objects s fl"
  have s1': "objects s1 = objects s @ ?N" "selected s1 = map oid ?N"
    using fl s1 by (auto simp: import_scene_fbx_def)
  have sel1: "selected_objects s1 = ?N" using selected_objects_import [OF fl s1] .
  let ?u = "\<lambda>ob. if oid ob = t then f ob else ob"
  let ?old = "map ?u (objects s)"
  let ?new = "map ?u ?N"
  have o2: "objects s2 = ?old @ ?new" using s2(3) s1'(1) by simp
  have mo: "map oid ?new = map oid ?N" using s2(4) by (induction ?N) auto
  have old: "\<forall>ob\<in>set ?old. oid ob \<notin> set (map oid ?new)
       \<and> (\<forall>q. parent ob = Some q \<longrightarrow> q \<notin> set (map oid ?new))"
  proof
    fix ob assume "ob \<in> set ?old"
    then obtain x where x: "x \<in> set (objects s)" "ob = ?u x" by auto
    then have "oid ob = oid x" "parent ob = parent x" using s2(4) by auto
    then show "oid ob \<notin> set (map oid ?new)
       \<and> (\<forall>q. parent ob = Some q \<longrightarrow> q \<notin> set (map oid ?new))"
      unfolding mo using old_not_imported [OF pc x(1), of fl] by simp
  qed
  have sel2: "selected_objects s2 = ?new"
  proof (rule selected_objects_new [OF o2])
    show "selected s2 = map oid ?new" using s2(2) s1'(2) mo by simp
    show "\<forall>ob\<in>set ?old. oid ob \<notin> set (map oid ?new)" using old by blast
  qed
  have dn: "distinct (map oid ?new)" unfolding mo by (rule distinct_imported)
  from remove_objects_new [OF refl o2 dn old]
  obtain s' where s': "remove_objects ?new s2 = Inr s'" "objects s' = ?old"
    "stdout s' = stdout s2" "written s' = written s2"
    "selected s' = filter (\<lambda>i. i \<notin> set (map oid ?new)) (selected s2)"
    "forget_users (meshes s') = forget_users (meshes s2)"
    "forget_users (armatures s') = forget_users (armatures s2)"
    "forget_users (actions s') = forget_users (actions s2)"
    by blast
  have e: "extract_animation fs p nm t s = Inr s'"
    using s1 sel1 a s2(1) sel2 s'(1) by (simp add: extract_animation_def)
  have "selected s' = []" using s'(5) s2(2) s1'(2) mo by (simp add: filter_empty_conv)
  then show ?thesis using e s' by (intro exI [of _ s']) simp
qed

text \<open>The imported armature has no bound action: nothing is attached.\<close>

lemma extract_animation_unbound:
  assumes fl: "fs p = Some (FBX fl)" and pc: "parents_closed s"
    and arm: "find (\<lambda>fo. fbx_type fo = ''ARMATURE'') fl = Some fo"
    and un: "fbx_anim fo = NoAnimData \<or> fbx_anim fo = NoAction"
  shows "\<exists>s'. extract_animation fs p nm t s = Inr s'
          \<and> objects s' = objects s
          \<and> stdout s' = stdout s \<and> written s' = written s \<and> selected s' = []
          \<and> forget_users (meshes s')
              = forget_users (meshes s @ new_meshes (fresh (map block_id (meshes s))) 0 fl)
          \<and> forget_users (armatures s')
              = forget_users (armatures s @ new_armatures (fresh (map block_id (armatures s))) 0 fl)
          \<and> forget_users (actions s')
              = forget_users (actions s @ new_actions (fresh (map block_id (actions s))) 0 fl)"
proof -
  obtain s1 where s1: "import_scene_fbx fs p s = Inr s1"
    "stdout s1 = stdout s" "written s1 = written s"
    "meshes s1 = meshes s @ new_meshes (fresh (map block_id (meshes s))) 0 fl"
    "armatures s1 = armatures s @ new_armatures (fresh (map block_id (armatures s))) 0 fl"
    "actions s1 = actions s @ new_actions (fresh (map block_id (actions s))) 0 fl"
    using fl by (simp add: import_scene_fbx_def)
  obtain a_ob where a: "find (\<lambda>ob. otype ob = ''ARMATURE'') (imported_objects s fl) = Some a_ob"
    "animation_data a_ob = None \<or> (\<exists>ad. animation_data a_ob = Some ad \<and> action ad = None)"
    using imported_armature [OF arm, of s] un by auto
  have at: "attach_action a_ob nm t s1 = Inr s1" using a(2) by (rule attach_action_unbound)
  have "objects s1 = map (\<lambda>ob. if oid ob = t then id ob else ob) (objects s1)"
    by (simp add: map_idI)
  from extract_animation_after_attach [OF fl pc s1(1) a(1) at refl this]
  obtain s' where "extract_animation fs p nm t s = Inr s'"
    "objects s' = map (\<lambda>ob. if oid ob = t then id ob else ob) (objects s)"
    "stdout s' = stdout s1" "written s' = written s1" "selected s' = []"
    "forget_users (meshes s') = forget_users (meshes s1)"
    "forget_users (armatures s') = forget_users (armatures s1)"
    "forget_users (actions s') = forget_users (actions s1)"
    by auto
  then show ?thesis using s1 by (intro exI [of _ s']) (simp add: map_idI)
qed

text \<open>The imported armature has a bound action: its copy, renamed, goes into a new muted
  track of the target.\<close>

lemma extract_animation_bound:
  assumes fl: "fs p = Some (FBX fl)" and pc: "parents_closed s"
    and arm: "find (\<lambda>fo. fbx_type fo = ''ARMATURE'') fl = Some fo"
    and bd: "fbx_anim fo = BoundAction anm cv"
    and tg: "get_object s t = Some tgt"
  shows "\<exists>s'. extract_animation fs p nm t s = Inr s'
          \<and> objects s' =
               map (\<lambda>ob. if oid ob = t
                  then ob\<lparr>animation_data := Some
                    \<lparr>action = (case animation_data tgt of None \<Rightarrow> None | Some ad \<Rightarrow> action ad),
                     nla_tracks = (case animation_data tgt of None \<Rightarrow> [] | Some ad \<Rightarrow> nla_tracks ad)
                       @ [\<lparr>track_name = assign_name nm (map track_name
                             (case animation_data tgt of None \<Rightarrow> [] | Some ad \<Rightarrow> nla_tracks ad)),
                           mute = True,
                           strips = [\<lparr>strip_name = assign_name nm [], frame_start = 0,
                             strip_action = fresh (map block_id (actions s
                               @ new_actions (fresh (map block_id (actions s))) 0 fl))\<rparr>]\<rparr>]\<rparr>\<rparr>
                  else ob) (objects s)
          \<and> stdout s' = stdout s @ [''Added animation: '' @ nm]
          \<and> written s' = written s \<and> selected s' = []
          \<and> forget_users (meshes s')
              = forget_users (meshes s @ new_meshes (fresh (map block_id (meshes s))) 0 fl)
          \<and> forget_users (armatures s')
              = forget_users (armatures s @ new_armatures (fresh (map block_id (armatures s))) 0 fl)
          \<and> forget_users (actions s')
              = forget_users (actions s @ new_actions (fresh (map block_id (actions s))) 0 fl)
                @ [\<lparr>block_id = fresh (map block_id (actions s
                       @ new_actions (fresh (map block_id (actions s))) 0 fl)),
                    block_name = assign_name nm (map block_name (actions s
                       @ new_actions (fresh (map block_id (actions s))) 0 fl)),
                    users = 0, fcurves = cv\<rparr>]"
proof -
  let ?NA = "new_actions (fresh (map block_id (actions s))) 0 fl"
  let ?c = "fresh (map block_id (actions s @ ?NA))"
  obtain s1 where s1: "import_scene_fbx fs p s = Inr s1"
    "stdout s1 = stdout s" "written s1 = written s"
    "meshes s1 = meshes s @ new_meshes (fresh (map block_id (meshes s))) 0 fl"
    "armatures s1 = armatures s @ new_armatures (fresh (map block_id (armatures s))) 0 fl"
    "actions s1 = actions s @ ?NA"
    "objects s1 = objects s @ imported_objects s fl"
    using fl by (simp add: import_scene_fbx_def)
  obtain a_ob c0 where a: "find (\<lambda>ob. otype ob = ''ARMATURE'') (imported_objects s fl) = Some a_ob"
    "animation_data a_ob = Some \<lparr>action = Some c0, nla_tracks = []\<rparr>"
    "fresh (map block_id (actions s)) \<le> c0"
    "find (\<lambda>b. block_id b = c0) ?NA
       = Some \<lparr>block_id = c0, block_name = anm, users = 1, fcurves = cv\<rparr>"
    using imported_armature [OF arm, of s] bd by blast
  have "\<forall>b\<in>set (actions s). \<not> block_id b = c0"
  proof
    fix b assume "b \<in> set (actions s)"
    then have "block_id b < fresh (map block_id (actions s))" by (intro fresh_gt) simp
    then show "\<not> block_id b = c0" using a(3) by simp
  qed
  then have src: "find (\<lambda>b. block_id b = c0) (actions s1)
       = Some \<lparr>block_id = c0, block_name = anm, users = 1, fcurves = cv\<rparr>"
    unfolding s1(6) using a(4) by (simp add: find_append_new)
  have tg1: "get_object s1 t = Some tgt"
    using tg unfolding get_object_def s1(7) by (rule find_append_old)
  have ac: "action \<lparr>action = Some c0, nla_tracks = []\<rparr> = Some c0" by simp
  note at = attach_action_bound [OF a(2) ac src tg1, of nm]
  let ?f = "\<lambda>ob. ob\<lparr>animation_data := Some
                    \<lparr>action = (case animation_data tgt of None \<Rightarrow> None | Some ad \<Rightarrow> action ad),
                     nla_tracks = (case animation_data tgt of None \<Rightarrow> [] | Some ad \<Rightarrow> nla_tracks ad)
                       @ [\<lparr>track_name = assign_name nm (map track_name
                             (case animation_data tgt of None \<Rightarrow> [] | Some ad \<Rightarrow> nla_tracks ad)),
                           mute = True,
                           strips = [\<lparr>strip_name = assign_name nm [], frame_start = 0,
                             strip_action = ?c\<rparr>]\<rparr>]\<rparr>\<rparr>"
  obtain s2 where s2: "attach_action a_ob nm t s1 = Inr s2" "selected s2 = selected s1"
    "objects s2 = map (\<lambda>ob. if oid ob = t then ?f ob else ob) (objects s1)"
    "stdout s2 = stdout s @ [''Added animation: '' @ nm]" "written s2 = written s"
    "meshes s2 = meshes s1" "armatures s2 = armatures s1"
    "forget_users (actions s2) = forget_users (actions s @ ?NA)
        @ [\<lparr>block_id = ?c, block_name = assign_name nm (map block_name (actions s @ ?NA)),
            users = 0, fcurves = cv\<rparr>]"
  proof -
    have fc: "\<forall>b\<in>set (actions s @ ?NA). block_id b \<noteq> ?c"
      using fresh_gt [of _ "map block_id (actions s @ ?NA)"] by fastforce
    let ?cp = "\<lparr>block_id = c0, block_name = anm, users = 1, fcurves = cv\<rparr>
                   \<lparr>block_id := ?c, users := 0\<rparr>"
    have "set_action_names ?c nm ((actions s @ ?NA) @ [?cp])
        = (actions s @ ?NA)
            @ [?cp\<lparr>block_name := assign_name nm (map block_name (actions s @ ?NA))\<rparr>]"
      by (rule set_action_names_last [OF fc]) simp
    then have "forget_users (inc_users ?c
          (set_action_names ?c nm ((actions s @ ?NA)
              @ [\<lparr>block_id = c0, block_name = anm, users = 1, fcurves = cv\<rparr>
                   \<lparr>block_id := ?c, users := 0\<rparr>])))
        = forget_users (actions s @ ?NA)
            @ [\<lparr>block_id = ?c, block_name = assign_name nm (map block_name (actions s @ ?NA)),
                users = 0, fcurves = cv\<rparr>]"
      by (simp add: forget_users_def inc_users_def)
    then show ?thesis
      using that [of "the_inv Inr (attach_action a_ob nm t s1)"] at s1
      by (simp add: the_inv_f_f)
  qed
  have pres: "\<forall>ob. oid (?f ob) = oid ob \<and> parent (?f ob) = parent ob" by simp
  from extract_animation_after_attach [OF fl pc s1(1) a(1) s2(1,2,3) pres]
  obtain s' where "extract_animation fs p nm t s = Inr s'"
    "objects s' = map (\<lambda>ob. if oid ob = t then ?f ob else ob) (objects s)"
    "stdout s' = stdout s2" "written s' = written s2" "selected s' = []"
    "forget_users (meshes s') = forget_users (meshes s2)"
    "forget_users (armatures s') = forget_users (armatures s2)"
    "forget_users (actions s') = forget_users (actions s2)"
    by blast
  then show ?thesis using s1 s2 by (intro exI [of _ s']) simp
qed

section \<open>Optimising one mesh\<close>

lemma find_unique_name:
  "distinct (map mod_name (kept @ x # rest)) \<Longrightarrow>
     find (\<lambda>m. mod_name m = mod_name x) (kept @ x # rest) = Some x"
  by (induction kept) auto

lemma remove1_middle:
  "distinct (map mod_name (kept @ x # rest)) \<Longrightarrow> remove1 x (kept @ x # rest) = kept @ rest"
  by (induction kept) auto

lemma get_object_Some_mem:
  "\<exists>c\<in>set (objects s). oid c = m \<Longrightarrow> \<exists>ob. get_object s m = Some ob \<and> ob \<in> set (objects s) \<and> oid ob = m"
  unfolding get_object_def
  by (cases "find (\<lambda>ob. oid ob = m) (objects s)") (auto simp: find_None_iff find_Some_iff)

lemma ex_oid_map:
  "(\<And>c. oid (g c) = oid c) \<Longrightarrow> (\<exists>c\<in>set (map g xs). oid c = m) = (\<exists>c\<in>set xs. oid c = m)"
  by (induction xs) auto

lemma all_oid_map:
  "(\<And>c. oid (g c) = oid c) \<Longrightarrow>
     (\<forall>c\<in>set (map g xs). oid c = m \<longrightarrow> P c) = (\<forall>c\<in>set xs. oid c = m \<longrightarrow> P (g c))"
  by (induction xs) auto

lemma map_if_oid_twice:
  "map (\<lambda>c. if oid c = m then c\<lparr>modifiers := A\<rparr> else c)
       (map (\<lambda>c. if oid c = m then c\<lparr>modifiers := B\<rparr> else c) xs)
     = map (\<lambda>c. if oid c = m then c\<lparr>modifiers := A\<rparr> else c) xs"
  by (induction xs) auto

lemma mem_ids_map:
  "(\<And>b. block_id (g b) = block_id b) \<Longrightarrow> block_id ` set (map g xs) = block_id ` set xs"
  by (induction xs) auto

lemma modifier_apply_step:
  assumes act: "active s = Some m"
    and ex: "\<exists>c\<in>set (objects s). oid c = m"
    and all: "\<forall>c\<in>set (objects s). oid c = m \<longrightarrow>
        modifiers c = kept @ x # rest \<and> otype c = ''MESH'' \<and> data c = Some d"
    and d: "d \<in> block_id ` set (meshes s)"
    and dist: "distinct (map mod_name (kept @ x # rest))"
  shows "modifier_apply engine (mod_name x) s =
     Inr (s\<lparr>objects := map (\<lambda>c. if oid c = m then c\<lparr>modifiers := kept @ rest\<rparr> else c) (objects s),
           meshes := map (\<lambda>b. if block_id b = d then b\<lparr>polygons := engine x (polygons b)\<rparr> else b)
                       (meshes s)\<rparr>)"
proof -
  from get_object_Some_mem [OF ex] obtain ob where ob: "get_object s m = Some ob"
    "ob \<in> set (objects s)" "oid ob = m" by blast
  with all have o: "modifiers ob = kept @ x # rest" "otype ob = ''MESH''" "data ob = Some d"
    by auto
  have f: "find (\<lambda>md. mod_name md = mod_name x) (modifiers ob) = Some x"
    unfolding o(1) using dist by (rule find_unique_name)
  have "map (\<lambda>c. if oid c = m then c\<lparr>modifiers := remove1 x (modifiers c)\<rparr> else c) (objects s)
      = map (\<lambda>c. if oid c = m then c\<lparr>modifiers := kept @ rest\<rparr> else c) (objects s)"
    using all remove1_middle [OF dist] by (intro map_cong) auto
  then show ?thesis
    using act ob(1) f o d by (simp add: modifier_apply_def)
qed

lemma apply_modifiers_closed:
  assumes "active s = Some m"
    and "\<exists>c\<in>set (objects s). oid c = m"
    and "\<forall>c\<in>set (objects s). oid c = m \<longrightarrow>
        modifiers c = kept @ rest \<and> otype c = ''MESH'' \<and> data c = Some d"
    and "d \<in> block_id ` set (meshes s)"
    and "distinct (map mod_name (kept @ rest))"
  shows "apply_modifiers engine rest s =
     Inr (s\<lparr>objects := map (\<lambda>c. if oid c = m
                then c\<lparr>modifiers := kept @ filter (\<lambda>x. mod_type x = ''ARMATURE'') rest\<rparr>
                else c) (objects s),
           meshes := map (\<lambda>b. if block_id b = d
                then b\<lparr>polygons := foldl (\<lambda>p md. engine md p) (polygons b)
                                     (filter (\<lambda>x. mod_type x \<noteq> ''ARMATURE'') rest)\<rparr>
                else b) (meshes s)\<rparr>)"
  using assms
proof (induction rest arbitrary: s kept)
  case Nil
  have "map (\<lambda>c. if oid c = m then c\<lparr>modifiers := kept\<rparr> else c) (objects s) = objects s"
    using Nil(3) by (intro map_idI) auto
  moreover have "map (\<lambda>b. if block_id b = d then b\<lparr>polygons := polygons b\<rparr> else b) (meshes s)
      = meshes s"
    by (intro map_idI) auto
  ultimately have "s\<lparr>objects := map (\<lambda>c. if oid c = m then c\<lparr>modifiers := kept\<rparr> else c) (objects s),
        meshes := map (\<lambda>b. if block_id b = d then b\<lparr>polygons := polygons b\<rparr> else b) (meshes s)\<rparr>
      = s"
    by (simp only: scene.surjective scene.update_convs) simp
  then show ?case
    by (simp only: apply_modifiers.simps filter.simps foldl.simps append_Nil2)
next
  case (Cons x rest)
  show ?case
  proof (cases "mod_type x = ''ARMATURE''")
    case True
    have "apply_modifiers engine rest s =
       Inr (s\<lparr>objects := map (\<lambda>c. if oid c = m
                then c\<lparr>modifiers := (kept @ [x]) @ filter (\<lambda>x. mod_type x = ''ARMATURE'') rest\<rparr>
                else c) (objects s),
           meshes := map (\<lambda>b. if block_id b = d
                then b\<lparr>polygons := foldl (\<lambda>p md. engine md p) (polygons b)
                                     (filter (\<lambda>x. mod_type x \<noteq> ''ARMATURE'') rest)\<rparr>
                else b) (meshes s)\<rparr>)"
      using Cons.prems by (intro Cons.IH) auto
    then show ?thesis using True by simp
  next
    case False
    let ?s1 = "s\<lparr>objects := map (\<lambda>c. if oid c = m then c\<lparr>modifiers := kept @ rest\<rparr> else c) (objects s),
           meshes := map (\<lambda>b. if block_id b = d then b\<lparr>polygons := engine x (polygons b)\<rparr> else b)
                       (meshes s)\<rparr>"
    have st: "modifier_apply engine (mod_name x) s = Inr ?s1"
      using Cons.prems by (intro modifier_apply_step) auto
    have "apply_modifiers engine rest ?s1 =
       Inr (?s1\<lparr>objects := map (\<lambda>c. if oid c = m
                then c\<lparr>modifiers := kept @ filter (\<lambda>x. mod_type x = ''ARMATURE'') rest\<rparr>
                else c) (objects ?s1),
           meshes := map (\<lambda>b. if block_id b = d
                then b\<lparr>polygons := foldl (\<lambda>p md. engine md p) (polygons b)
                                     (filter (\<lambda>x. mod_type x \<noteq> ''ARMATURE'') rest)\<rparr>
                else b) (meshes ?s1)\<rparr>)"
    proof (rule Cons.IH)
      show "active ?s1 = Some m" using Cons.prems(1) by simp
      show "\<exists>c\<in>set (objects ?s1). oid c = m" using Cons.prems(2) by (simp add: ex_oid_map del: set_map)
      show "\<forall>c\<in>set (objects ?s1). oid c = m \<longrightarrow>
        modifiers c = kept @ rest \<and> otype c = ''MESH'' \<and> data c = Some d"
        using Cons.prems(3) by (simp add: all_oid_map del: set_map)
      show "d \<in> block_id ` set (meshes ?s1)" using Cons.prems(4) by (simp add: mem_ids_map del: set_map)
      show "distinct (map mod_name (kept @ rest))" using Cons.prems(5) by simp
    qed
    then show ?thesis using False st by (simp add: comp_def cong: if_cong)
  qed
qed


lemma update_first_last:
  "\<forall>a\<in>set A. \<not> P a \<Longrightarrow> P x \<Longrightarrow> update_first P f (A @ [x]) = A @ [f x]"
  by (induction A) auto

lemma find_last:
  "\<forall>a\<in>set A. \<not> P a \<Longrightarrow> P x \<Longrightarrow> find P (A @ [x]) = Some x"
  by (induction A) auto

lemma get_object_const_update:
  assumes "\<exists>c\<in>set (objects s). oid c = m"
    and "\<forall>c\<in>set (objects s). oid c = m \<longrightarrow> modifiers c = A \<and> otype c = T \<and> data c = D"
  shows "\<exists>ob. get_object s m = Some ob \<and> modifiers ob = A \<and> otype ob = T \<and> data ob = D"
  using get_object_Some_mem [OF assms(1)] assms(2) by auto

lemma decimate_closed:
  assumes act: "active s = Some m"
    and ex: "\<exists>c\<in>set (objects s). oid c = m"
    and all: "\<forall>c\<in>set (objects s). oid c = m \<longrightarrow>
        modifiers c = A \<and> otype c = ''MESH'' \<and> data c = Some d"
    and d: "d \<in> block_id ` set (meshes s)"
    and dist: "distinct (map mod_name A)"
    and nd: "''Decimate'' \<notin> set (map mod_name A)"
  shows "decimate engine m s =
     Inr (s\<lparr>meshes := map (\<lambda>b. if block_id b = d
              then b\<lparr>polygons := engine \<lparr>mod_name = ''Decimate'', mod_type = ''DECIMATE'',
                                         ratio = Some 0.5\<rparr> (polygons b)\<rparr>
              else b) (meshes s)\<rparr>)"
proof -
  let ?D1 = "\<lparr>mod_name = ''Decimate'', mod_type = ''DECIMATE'', ratio = Some (1::real)\<rparr>"
  let ?D = "\<lparr>mod_name = ''Decimate'', mod_type = ''DECIMATE'', ratio = Some (0.5::real)\<rparr>"
  let ?s1 = "s\<lparr>objects := map (\<lambda>c. if oid c = m then c\<lparr>modifiers := A @ [?D1]\<rparr> else c) (objects s)\<rparr>"
  let ?s2 = "s\<lparr>objects := map (\<lambda>c. if oid c = m then c\<lparr>modifiers := A @ [?D]\<rparr> else c) (objects s)\<rparr>"
  obtain ob where ob: "get_object s m = Some ob"
    using get_object_Some_mem [OF ex] by blast
  have "map (\<lambda>c. if oid c = m
          then c\<lparr>modifiers := modifiers c
                 @ [\<lparr>mod_name = unique_name ''Decimate'' (map mod_name (modifiers c)),
                     mod_type = ''DECIMATE'', ratio = Some 1\<rparr>]\<rparr> else c) (objects s)
      = map (\<lambda>c. if oid c = m then c\<lparr>modifiers := A @ [?D1]\<rparr> else c) (objects s)"
    using all nd by (intro map_cong) (auto simp: unique_name_def)
  then have a1: "modifier_add_DECIMATE s = Inr ?s1"
    using act ob by (simp add: modifier_add_DECIMATE_def update_object_def)
  have ex1: "\<exists>c\<in>set (objects ?s1). oid c = m" using ex by (simp add: ex_oid_map del: set_map)
  have all1: "\<forall>c\<in>set (objects ?s1). oid c = m \<longrightarrow>
        modifiers c = A @ [?D1] \<and> otype c = ''MESH'' \<and> data c = Some d"
    using all by (simp add: all_oid_map del: set_map)
  obtain ob1 where ob1: "get_object ?s1 m = Some ob1" "modifiers ob1 = A @ [?D1]"
    using get_object_const_update [OF ex1 all1] by blast
  have nA: "\<forall>a\<in>set A. \<not> mod_name a = ''Decimate''" using nd by (auto simp: image_iff)
  have f1: "find (\<lambda>md. mod_name md = ''Decimate'') (modifiers ob1) = Some ?D1"
    unfolding ob1(2) using nA by (intro find_last) simp_all
  have "map (\<lambda>c. if oid c = m
          then c\<lparr>modifiers := update_first (\<lambda>md. mod_name md = ''Decimate'')
                   (\<lambda>md. md\<lparr>ratio := Some 0.5\<rparr>) (modifiers c)\<rparr> else c) (objects ?s1)
      = map (\<lambda>c. if oid c = m then c\<lparr>modifiers := A @ [?D]\<rparr> else c) (objects ?s1)"
  proof (rule map_cong [OF refl])
    fix c assume c: "c \<in> set (objects ?s1)"
    show "(if oid c = m
          then c\<lparr>modifiers := update_first (\<lambda>md. mod_name md = ''Decimate'')
                   (\<lambda>md. md\<lparr>ratio := Some 0.5\<rparr>) (modifiers c)\<rparr> else c)
        = (if oid c = m then c\<lparr>modifiers := A @ [?D]\<rparr> else c)"
    proof (cases "oid c = m")
      case True
      with all1 c have "modifiers c = A @ [?D1]" by blast
      moreover have "update_first (\<lambda>md. mod_name md = ''Decimate'')
                   (\<lambda>md. md\<lparr>ratio := Some 0.5\<rparr>) (A @ [?D1]) = A @ [?D]"
        using nA by (subst update_first_last) simp_all
      ultimately show ?thesis using True by simp
    next
      case False
      then show ?thesis by simp
    qed
  qed
  then have a2: "set_modifier_ratio m ''Decimate'' 0.5 ?s1 = Inr ?s2"
    using ob1(1) f1
    by (simp add: set_modifier_ratio_def update_object_def comp_def cong: if_cong)
  have ex2: "\<exists>c\<in>set (objects ?s2). oid c = m" using ex by (simp add: ex_oid_map del: set_map)
  have all2: "\<forall>c\<in>set (objects ?s2). oid c = m \<longrightarrow>
        modifiers c = A @ ?D # [] \<and> otype c = ''MESH'' \<and> data c = Some d"
    using all by (simp add: all_oid_map del: set_map)
  have ap: "modifier_apply engine (mod_name ?D) ?s2 =
     Inr (?s2\<lparr>objects := map (\<lambda>c. if oid c = m then c\<lparr>modifiers := A @ []\<rparr> else c) (objects ?s2),
           meshes := map (\<lambda>b. if block_id b = d then b\<lparr>polygons := engine ?D (polygons b)\<rparr> else b)
                       (meshes ?s2)\<rparr>)"
  proof (rule modifier_apply_step [OF _ ex2 all2])
    show "active ?s2 = Some m" using act by simp
    show "d \<in> block_id ` set (meshes ?s2)" using d by simp
    show "distinct (map mod_name (A @ [?D]))" using dist nd by simp
  qed
  have idm: "map (\<lambda>c. if oid c = m then c\<lparr>modifiers := A\<rparr> else c) (objects s) = objects s"
    using all by (intro map_idI) auto
  have "map (\<lambda>c. if oid c = m then c\<lparr>modifiers := A @ []\<rparr> else c) (objects ?s2) = objects s"
    unfolding append_Nil2 using idm by (simp add: map_if_oid_twice del: map_map)
  then have "?s2\<lparr>objects := map (\<lambda>c. if oid c = m then c\<lparr>modifiers := A @ []\<rparr> else c) (objects ?s2),
           meshes := map (\<lambda>b. if block_id b = d then b\<lparr>polygons := engine ?D (polygons b)\<rparr> else b)
                       (meshes ?s2)\<rparr>
      = s\<lparr>meshes := map (\<lambda>b. if block_id b = d then b\<lparr>polygons := engine ?D (polygons b)\<rparr> else b)
                       (meshes s)\<rparr>"
    by (simp only: scene.update_convs scene.select_convs scene.surjective) simp
  then have a3: "modifier_apply engine ''Decimate'' ?s2 =
     Inr (s\<lparr>meshes := map (\<lambda>b. if block_id b = d then b\<lparr>polygons := engine ?D (polygons b)\<rparr> else b)
                       (meshes s)\<rparr>)"
    using ap by (simp only: modifier.select_convs)
  show ?thesis using a1 a2 a3 by (simp add: decimate_def)
qed

lemma find_block_map:
  "(\<And>b. block_id (g b) = block_id b) \<Longrightarrow>
     find (\<lambda>b. block_id b = d) (map g xs) = map_option g (find (\<lambda>b. block_id b = d) xs)"
  by (induction xs) auto

lemma optimize_mesh_closed:
  assumes ex: "\<exists>c\<in>set (objects s). oid c = m"
    and all: "\<forall>c\<in>set (objects s). oid c = m \<longrightarrow>
        modifiers c = M \<and> otype c = ''MESH'' \<and> data c = Some d"
    and b0: "find (\<lambda>b. block_id b = d) (meshes s) = Some b0"
    and dist: "distinct (map mod_name M)"
    and nd: "\<forall>x\<in>set M. mod_type x = ''ARMATURE'' \<longrightarrow> mod_name x \<noteq> ''Decimate''"
  shows "\<exists>s'. optimize_mesh engine m s = Inr s'
     \<and> objects s' = map (\<lambda>c. if oid c = m
          then c\<lparr>modifiers := filter (\<lambda>x. mod_type x = ''ARMATURE'') M\<rparr> else c) (objects s)
     \<and> meshes s' = map (\<lambda>b. if block_id b = d
          then b\<lparr>polygons :=
            (if 10000 < length (foldl (\<lambda>p md. engine md p) (polygons b0)
                                (filter (\<lambda>x. mod_type x \<noteq> ''ARMATURE'') M))
             then engine \<lparr>mod_name = ''Decimate'', mod_type = ''DECIMATE'', ratio = Some 0.5\<rparr>
                    (foldl (\<lambda>p md. engine md p) (polygons b)
                       (filter (\<lambda>x. mod_type x \<noteq> ''ARMATURE'') M))
             else foldl (\<lambda>p md. engine md p) (polygons b)
                       (filter (\<lambda>x. mod_type x \<noteq> ''ARMATURE'') M))\<rparr>
          else b) (meshes s)
     \<and> armatures s' = armatures s \<and> actions s' = actions s
     \<and> stdout s' = stdout s \<and> written s' = written s"
proof -
  let ?P = "\<lambda>p. foldl (\<lambda>p md. engine md p) p (filter (\<lambda>x. mod_type x \<noteq> ''ARMATURE'') M)"
  let ?A = "filter (\<lambda>x. mod_type x = ''ARMATURE'') M"
  let ?s0 = "select_set m True (s\<lparr>active := Some m\<rparr>)"
  obtain ob where ob: "get_object s m = Some ob" "modifiers ob = M"
    using get_object_const_update [OF ex all] by blast
  have d: "d \<in> block_id ` set (meshes s)"
    using b0 by (force simp: find_Some_iff image_iff)
  have o0: "objects ?s0 = objects s" "meshes ?s0 = meshes s" "active ?s0 = Some m"
    "armatures ?s0 = armatures s" "actions ?s0 = actions s" "stdout ?s0 = stdout s"
    "written ?s0 = written s"
    by (simp_all add: select_set_def)
  let ?s2 = "?s0\<lparr>objects := map (\<lambda>c. if oid c = m then c\<lparr>modifiers := [] @ ?A\<rparr> else c) (objects ?s0),
           meshes := map (\<lambda>b. if block_id b = d then b\<lparr>polygons := ?P (polygons b)\<rparr> else b)
                       (meshes ?s0)\<rparr>"
  have am: "apply_modifiers engine M ?s0 = Inr ?s2"
  proof (rule apply_modifiers_closed)
    show "active ?s0 = Some m" by (rule o0)
    show "\<exists>c\<in>set (objects ?s0). oid c = m" using ex o0 by simp
    show "\<forall>c\<in>set (objects ?s0). oid c = m \<longrightarrow>
        modifiers c = [] @ M \<and> otype c = ''MESH'' \<and> data c = Some d"
      using all o0 by simp
    show "d \<in> block_id ` set (meshes ?s0)" using d o0 by simp
    show "distinct (map mod_name ([] @ M))" using dist by simp
  qed
  have o2: "objects ?s2 = map (\<lambda>c. if oid c = m then c\<lparr>modifiers := ?A\<rparr> else c) (objects s)"
    "meshes ?s2 = map (\<lambda>b. if block_id b = d then b\<lparr>polygons := ?P (polygons b)\<rparr> else b) (meshes s)"
    "active ?s2 = Some m" "armatures ?s2 = armatures s" "actions ?s2 = actions s"
    "stdout ?s2 = stdout s" "written ?s2 = written s"
    using o0 by simp_all
  have ex2: "\<exists>c\<in>set (objects ?s2). oid c = m"
    unfolding o2 using ex by (simp add: ex_oid_map del: set_map)
  have all2: "\<forall>c\<in>set (objects ?s2). oid c = m \<longrightarrow>
        modifiers c = ?A \<and> otype c = ''MESH'' \<and> data c = Some d"
    unfolding o2 using all by (simp add: all_oid_map del: set_map)
  obtain ob2 where ob2: "get_object ?s2 m = Some ob2" "data ob2 = Some d"
    using get_object_const_update [OF ex2 all2] by blast
  have fb: "find (\<lambda>b. block_id b = d) (meshes ?s2) = Some (b0\<lparr>polygons := ?P (polygons b0)\<rparr>)"
    unfolding o2 using b0 by (subst find_block_map) (auto simp: find_Some_iff)
  have dp: "data_polygons m ?s2 = Inr (?P (polygons b0))"
    using ob2 fb by (simp add: data_polygons_def)
  have d2: "d \<in> block_id ` set (meshes ?s2)"
    unfolding o2 using d by (simp add: mem_ids_map del: set_map)
  show ?thesis
  proof (cases "10000 < length (?P (polygons b0))")
    case False
    have "optimize_mesh engine m s = Inr (select_set m False ?s2)"
      using ob am dp False by (simp add: optimize_mesh_def)
    moreover have "objects (select_set m False ?s2) = objects ?s2"
      "meshes (select_set m False ?s2) = meshes ?s2"
      "armatures (select_set m False ?s2) = armatures ?s2"
      "actions (select_set m False ?s2) = actions ?s2"
      "stdout (select_set m False ?s2) = stdout ?s2"
      "written (select_set m False ?s2) = written ?s2"
      by (simp_all add: select_set_def)
    ultimately show ?thesis using False o2 by (simp cong: if_cong)
  next
    case True
    let ?D = "\<lparr>mod_name = ''Decimate'', mod_type = ''DECIMATE'', ratio = Some (0.5::real)\<rparr>"
    let ?s3 = "?s2\<lparr>meshes := map (\<lambda>b. if block_id b = d then b\<lparr>polygons := engine ?D (polygons b)\<rparr>
                    else b) (meshes ?s2)\<rparr>"
    have dec: "decimate engine m ?s2 = Inr ?s3"
    proof (rule decimate_closed [OF _ ex2 all2 d2])
      show "active ?s2 = Some m" by (rule o2)
      show "distinct (map mod_name ?A)" using dist by (simp add: distinct_map_filter)
      show "''Decimate'' \<notin> set (map mod_name ?A)" using nd by auto
    qed
    have "optimize_mesh engine m s = Inr (select_set m False ?s3)"
      using ob am dp True dec by (simp add: optimize_mesh_def)
    moreover have "objects (select_set m False ?s3) = objects ?s2"
      "meshes (select_set m False ?s3) = meshes ?s3"
      "armatures (select_set m False ?s3) = armatures ?s2"
      "actions (select_set m False ?s3) = actions ?s2"
      "stdout (select_set m False ?s3) = stdout ?s2"
      "written (select_set m False ?s3) = written ?s2"
      by (simp_all add: select_set_def)
    moreover have "meshes ?s3 = map (\<lambda>b. if block_id b = d
          then b\<lparr>polygons := engine ?D (?P (polygons b))\<rparr> else b) (meshes s)"
      unfolding o2 by (simp add: comp_def cong: if_cong)
    ultimately show ?thesis using True o2 by (simp cong: if_cong)
  qed
qed

section \<open>Optimising the meshes of the target\<close>

lemma distinct_oid_unique:
  "distinct (map oid xs) \<Longrightarrow> c \<in> set xs \<Longrightarrow> c' \<in> set xs \<Longrightarrow> oid c = oid c' \<Longrightarrow> c = c'"
  by (auto simp: distinct_map inj_on_def)

lemma find_block_mem:
  "d \<in> block_id ` set bs \<Longrightarrow> \<exists>b. find (\<lambda>b. block_id b = d) bs = Some b \<and> block_id b = d \<and> b \<in> set bs"
  by (cases "find (\<lambda>b. block_id b = d) bs") (auto simp: find_None_iff find_Some_iff)

lemma optimize_mesh_ready:
  assumes dist: "distinct (map oid (objects s))"
    and ob: "ob \<in> set (objects s)" "otype ob = ''MESH''" "mesh_ready s ob"
  shows "\<exists>s' d b0. optimize_mesh engine (oid ob) s = Inr s'
     \<and> data ob = Some d \<and> find (\<lambda>b. block_id b = d) (meshes s) = Some b0
     \<and> objects s' = map (\<lambda>c. if oid c = oid ob
          then c\<lparr>modifiers := filter (\<lambda>x. mod_type x = ''ARMATURE'') (modifiers ob)\<rparr> else c)
            (objects s)
     \<and> meshes s' = map (\<lambda>b. if block_id b = d
          then b\<lparr>polygons :=
            (if 10000 < length (foldl (\<lambda>p md. engine md p) (polygons b0)
                                (filter (\<lambda>x. mod_type x \<noteq> ''ARMATURE'') (modifiers ob)))
             then engine \<lparr>mod_name = ''Decimate'', mod_type = ''DECIMATE'', ratio = Some 0.5\<rparr>
                    (foldl (\<lambda>p md. engine md p) (polygons b)
                       (filter (\<lambda>x. mod_type x \<noteq> ''ARMATURE'') (modifiers ob)))
             else foldl (\<lambda>p md. engine md p) (polygons b)
                       (filter (\<lambda>x. mod_type x \<noteq> ''ARMATURE'') (modifiers ob)))\<rparr>
          else b) (meshes s)
     \<and> armatures s' = armatures s \<and> actions s' = actions s
     \<and> stdout s' = stdout s \<and> written s' = written s"
proof -
  from ob(3) obtain d where d: "data ob = Some d" "d \<in> block_id ` set (meshes s)"
    and dn: "distinct (map mod_name (modifiers ob))"
    and nd: "\<forall>x\<in>set (modifiers ob). mod_type x = ''ARMATURE'' \<longrightarrow> mod_name x \<noteq> ''Decimate''"
    unfolding mesh_ready_def by blast
  obtain b0 where b0: "find (\<lambda>b. block_id b = d) (meshes s) = Some b0"
    using find_block_mem [OF d(2)] by blast
  have ex: "\<exists>c\<in>set (objects s). oid c = oid ob" using ob(1) by blast
  have all: "\<forall>c\<in>set (objects s). oid c = oid ob \<longrightarrow>
        modifiers c = modifiers ob \<and> otype c = ''MESH'' \<and> data c = Some d"
    using distinct_oid_unique [OF dist _ ob(1)] ob(2) d(1) by blast
  from optimize_mesh_closed [OF ex all b0 dn nd, of engine]
  obtain s' where s': "optimize_mesh engine (oid ob) s = Inr s'
     \<and> objects s' = map (\<lambda>c. if oid c = oid ob
          then c\<lparr>modifiers := filter (\<lambda>x. mod_type x = ''ARMATURE'') (modifiers ob)\<rparr> else c)
            (objects s)
     \<and> meshes s' = map (\<lambda>b. if block_id b = d
          then b\<lparr>polygons :=
            (if 10000 < length (foldl (\<lambda>p md. engine md p) (polygons b0)
                                (filter (\<lambda>x. mod_type x \<noteq> ''ARMATURE'') (modifiers ob)))
             then engine \<lparr>mod_name = ''Decimate'', mod_type = ''DECIMATE'', ratio = Some 0.5\<rparr>
                    (foldl (\<lambda>p md. engine md p) (polygons b)
                       (filter (\<lambda>x. mod_type x \<noteq> ''ARMATURE'') (modifiers ob)))
             else foldl (\<lambda>p md. engine md p) (polygons b)
                       (filter (\<lambda>x. mod_type x \<noteq> ''ARMATURE'') (modifiers ob)))\<rparr>
          else b) (meshes s)
     \<and> armatures s' = armatures s \<and> actions s' = actions s
     \<and> stdout s' = stdout s \<and> written s' = written s"
    by (elim exE) (rule that, assumption)
  show ?thesis
    by (rule exI [of _ s'], rule exI [of _ d], rule exI [of _ b0]) (use s' d(1) b0 in simp)
qed

text \<open>The outer loop of \<^verbatim>\<open>optimize_model\<close> returns when every mesh it visits is ready. It
  changes nothing but the modifier stacks of the objects it visits and the polygons of
  mesh blocks.\<close>

lemma optimize_meshes_frame:
  assumes "distinct (map oid (objects s))"
    and "\<forall>m\<in>set ms. \<exists>ob\<in>set (objects s). oid ob = m \<and> otype ob = ''MESH'' \<and> mesh_ready s ob"
    and "distinct ms"
  shows "\<exists>s' f g. optimize_meshes engine ms s = Inr s'
     \<and> objects s' = map f (objects s)
     \<and> (\<forall>c. f c = c \<or> (oid c \<in> set ms \<and> (\<exists>M. f c = c\<lparr>modifiers := M\<rparr>)))
     \<and> meshes s' = map g (meshes s) \<and> (\<forall>b. block_id (g b) = block_id b)
     \<and> armatures s' = armatures s \<and> actions s' = actions s
     \<and> stdout s' = stdout s \<and> written s' = written s"
  using assms
proof (induction ms arbitrary: s)
  case Nil
  show ?case
    by (rule exI [of _ s], rule exI [of _ id], rule exI [of _ id]) simp
next
  case (Cons m ms)
  from Cons.prems(2) obtain ob where ob: "ob \<in> set (objects s)" "oid ob = m"
    "otype ob = ''MESH''" "mesh_ready s ob"
    by auto
  let ?f1 = "\<lambda>c. if oid c = oid ob
          then c\<lparr>modifiers := filter (\<lambda>x. mod_type x = ''ARMATURE'') (modifiers ob)\<rparr> else c"
  from optimize_mesh_ready [OF Cons.prems(1) ob(1,3,4), of engine]
  obtain s1 d b0 where r0: "optimize_mesh engine (oid ob) s = Inr s1
     \<and> data ob = Some d \<and> find (\<lambda>b. block_id b = d) (meshes s) = Some b0
     \<and> objects s1 = map ?f1 (objects s)
     \<and> meshes s1 = map (\<lambda>b. if block_id b = d
          then b\<lparr>polygons :=
            (if 10000 < length (foldl (\<lambda>p md. engine md p) (polygons b0)
                                (filter (\<lambda>x. mod_type x \<noteq> ''ARMATURE'') (modifiers ob)))
             then engine \<lparr>mod_name = ''Decimate'', mod_type = ''DECIMATE'', ratio = Some 0.5\<rparr>
                    (foldl (\<lambda>p md. engine md p) (polygons b)
                       (filter (\<lambda>x. mod_type x \<noteq> ''ARMATURE'') (modifiers ob)))
             else foldl (\<lambda>p md. engine md p) (polygons b)
                       (filter (\<lambda>x. mod_type x \<noteq> ''ARMATURE'') (modifiers ob)))\<rparr>
          else b) (meshes s)
     \<and> armatures s1 = armatures s \<and> actions s1 = actions s
     \<and> stdout s1 = stdout s \<and> written s1 = written s"
    by (elim exE) (rule that, assumption)
  let ?g1 = "\<lambda>b. if block_id b = d
          then b\<lparr>polygons :=
            (if 10000 < length (foldl (\<lambda>p md. engine md p) (polygons b0)
                                (filter (\<lambda>x. mod_type x \<noteq> ''ARMATURE'') (modifiers ob)))
             then engine \<lparr>mod_name = ''Decimate'', mod_type = ''DECIMATE'', ratio = Some 0.5\<rparr>
                    (foldl (\<lambda>p md. engine md p) (polygons b)
                       (filter (\<lambda>x. mod_type x \<noteq> ''ARMATURE'') (modifiers ob)))
             else foldl (\<lambda>p md. engine md p) (polygons b)
                       (filter (\<lambda>x. mod_type x \<noteq> ''ARMATURE'') (modifiers ob)))\<rparr>
          else b"
  have e1: "optimize_mesh engine m s = Inr s1" using r0 ob(2) by simp
  have o1: "objects s1 = map ?f1 (objects s)" using r0 by (elim conjE)
  have m1: "meshes s1 = map ?g1 (meshes s)" using r0 by (elim conjE)
  have fr1: "armatures s1 = armatures s" "actions s1 = actions s"
    "stdout s1 = stdout s" "written s1 = written s"
    using r0 by simp_all
  have g1: "\<forall>b. block_id (?g1 b) = block_id b" by simp
  have ids1: "map oid (objects s1) = map oid (objects s)" unfolding o1 by simp
  have mids: "block_id ` set (meshes s1) = block_id ` set (meshes s)"
    unfolding m1 by (rule mem_ids_map) simp
  have "\<exists>s' f g. optimize_meshes engine ms s1 = Inr s'
     \<and> objects s' = map f (objects s1)
     \<and> (\<forall>c. f c = c \<or> (oid c \<in> set ms \<and> (\<exists>M. f c = c\<lparr>modifiers := M\<rparr>)))
     \<and> meshes s' = map g (meshes s1) \<and> (\<forall>b. block_id (g b) = block_id b)
     \<and> armatures s' = armatures s1 \<and> actions s' = actions s1
     \<and> stdout s' = stdout s1 \<and> written s' = written s1"
  proof (rule Cons.IH)
    show "distinct (map oid (objects s1))" unfolding ids1 by (rule Cons.prems(1))
    show "distinct ms" using Cons.prems(3) by simp
    show "\<forall>m'\<in>set ms. \<exists>ob\<in>set (objects s1). oid ob = m' \<and> otype ob = ''MESH'' \<and> mesh_ready s1 ob"
    proof
      fix m' assume m': "m' \<in> set ms"
      then have ne: "m' \<noteq> m" using Cons.prems(3) by auto
      from m' Cons.prems(2) obtain c where c: "c \<in> set (objects s)" "oid c = m'"
        "otype c = ''MESH''" "mesh_ready s c" by auto
      have "?f1 c = c" using c(2) ne ob(2) by simp
      then have "c \<in> ?f1 ` set (objects s)" by (intro rev_image_eqI [OF c(1)]) simp
      then have "c \<in> set (objects s1)" unfolding o1 by simp
      moreover have "mesh_ready s1 c" using c(4) unfolding mesh_ready_def mids by simp
      ultimately show "\<exists>ob\<in>set (objects s1). oid ob = m' \<and> otype ob = ''MESH'' \<and> mesh_ready s1 ob"
        using c(2,3) by (intro bexI [of _ c]) simp_all
    qed
  qed
  then obtain s' f g where s0: "optimize_meshes engine ms s1 = Inr s'
     \<and> objects s' = map f (objects s1)
     \<and> (\<forall>c. f c = c \<or> (oid c \<in> set ms \<and> (\<exists>M. f c = c\<lparr>modifiers := M\<rparr>)))
     \<and> meshes s' = map g (meshes s1) \<and> (\<forall>b. block_id (g b) = block_id b)
     \<and> armatures s' = armatures s1 \<and> actions s' = actions s1
     \<and> stdout s' = stdout s1 \<and> written s' = written s1"
    by (elim exE) (rule that, assumption)
  have e2: "optimize_meshes engine ms s1 = Inr s'" using s0 by (elim conjE)
  have o2: "objects s' = map f (objects s1)" using s0 by (elim conjE)
  have f2: "\<forall>c. f c = c \<or> (oid c \<in> set ms \<and> (\<exists>M. f c = c\<lparr>modifiers := M\<rparr>))"
    using s0 by (elim conjE)
  have m2: "meshes s' = map g (meshes s1)" using s0 by (elim conjE)
  have g2: "\<forall>b. block_id (g b) = block_id b" using s0 by (elim conjE)
  have fr2a: "armatures s' = armatures s1" using s0 by (elim conjE)
  have fr2b: "actions s' = actions s1" using s0 by (elim conjE)
  have fr2c: "stdout s' = stdout s1" using s0 by (elim conjE)
  have fr2d: "written s' = written s1" using s0 by (elim conjE)
  note fr2 = fr2a fr2b fr2c fr2d
  have comp: "\<forall>c. (f \<circ> ?f1) c = c
      \<or> (oid c \<in> set (m # ms) \<and> (\<exists>M. (f \<circ> ?f1) c = c\<lparr>modifiers := M\<rparr>))"
  proof
    fix c
    show "(f \<circ> ?f1) c = c \<or> (oid c \<in> set (m # ms) \<and> (\<exists>M. (f \<circ> ?f1) c = c\<lparr>modifiers := M\<rparr>))"
    proof (cases "oid c = m")
      case True
      let ?c1 = "c\<lparr>modifiers := filter (\<lambda>x. mod_type x = ''ARMATURE'') (modifiers ob)\<rparr>"
      have c1: "?f1 c = ?c1" using True ob(2) by simp
      from f2 have "f ?c1 = ?c1 \<or> (\<exists>M. f ?c1 = ?c1\<lparr>modifiers := M\<rparr>)" by blast
      then have "\<exists>M. f ?c1 = c\<lparr>modifiers := M\<rparr>"
      proof
        assume "f ?c1 = ?c1" then show ?thesis by (intro exI) 
      next
        assume "\<exists>M. f ?c1 = ?c1\<lparr>modifiers := M\<rparr>"
        then obtain M where "f ?c1 = ?c1\<lparr>modifiers := M\<rparr>" by (elim exE)
        then have "f ?c1 = c\<lparr>modifiers := M\<rparr>" by simp
        then show ?thesis by (intro exI)
      qed
      then show ?thesis using True c1 by (simp add: comp_def)
    next
      case False
      then have "?f1 c = c" using ob(2) by simp
      moreover from f2 have "f c = c \<or> (oid c \<in> set ms \<and> (\<exists>M. f c = c\<lparr>modifiers := M\<rparr>))"
        by (rule spec)
      ultimately show ?thesis by (auto simp: comp_def)
    qed
  qed
  have e: "optimize_meshes engine (m # ms) s = Inr s'" using e1 e2 by simp
  have o: "objects s' = map (f \<circ> ?f1) (objects s)" unfolding o2 o1 by simp
  have mm: "meshes s' = map (g \<circ> ?g1) (meshes s)" unfolding m2 m1 by simp
  have gg: "\<forall>b. block_id ((g \<circ> ?g1) b) = block_id b" using g2 by (simp add: comp_def)
  show ?case
    apply (rule exI [of _ s'], rule exI [of _ "f \<circ> ?f1"], rule exI [of _ "g \<circ> ?g1"])
    apply (intro conjI)
            apply (rule e)
           apply (rule o)
          apply (rule comp)
         apply (rule mm)
        apply (rule gg)
       apply (simp add: fr1 fr2)+
    done
qed

section \<open>The claims\<close>




text \<open>
  C9. Attaching a track to a target without animation data is safe. Asking such an object
  for a new track raises in the host, and \<^verbatim>\<open>extract_animation\<close> does not run into
  that: for a file whose armature has a bound action it returns, and the target then has
  an animation-data container whose only track is the new one (named as asked, up to the
  63 bytes a name of the host holds).
\<close>

theorem first_track_on_bare_target:
  assumes "fs p = Some (FBX fl)" and "parents_closed s"
    and "find (\<lambda>fo. fbx_type fo = ''ARMATURE'') fl = Some fo"
    and "fbx_anim fo = BoundAction anm cv"
    and "get_object s t = Some tgt" and "animation_data tgt = None"
  shows "nla_tracks_new t s = Inl AttributeError
     \<and> (\<exists>s' c. extract_animation fs p nm t s = Inr s'
           \<and> get_object s' t = Some (tgt\<lparr>animation_data := Some
                \<lparr>action = None,
                 nla_tracks = [\<lparr>track_name = take 63 nm, mute = True,
                   strips = [\<lparr>strip_name = take 63 nm, frame_start = 0, strip_action = c\<rparr>]\<rparr>]\<rparr>\<rparr>))"
proof
  show "nla_tracks_new t s = Inl AttributeError"
    using assms(5,6) by (simp add: nla_tracks_new_def)
next
  let ?c = "fresh (map block_id (actions s
             @ new_actions (fresh (map block_id (actions s))) 0 fl))"
  from extract_animation_bound [where fs = fs and p = p and nm = nm, OF assms(1-5)]
  obtain s' where e: "extract_animation fs p nm t s = Inr s'"
    and o: "objects s' = map (\<lambda>ob. if oid ob = t
        then ob\<lparr>animation_data := Some
          \<lparr>action = (case animation_data tgt of None \<Rightarrow> None | Some ad \<Rightarrow> action ad),
           nla_tracks = (case animation_data tgt of None \<Rightarrow> [] | Some ad \<Rightarrow> nla_tracks ad)
             @ [\<lparr>track_name = assign_name nm (map track_name
                   (case animation_data tgt of None \<Rightarrow> [] | Some ad \<Rightarrow> nla_tracks ad)),
                 mute = True,
                 strips = [\<lparr>strip_name = assign_name nm [], frame_start = 0,
                            strip_action = ?c\<rparr>]\<rparr>]\<rparr>\<rparr>
        else ob) (objects s)"
    by blast
  define c where "c = ?c"
  have s': "extract_animation fs p nm t s = Inr s'"
    "objects s' = map (\<lambda>ob. if oid ob = t
        then ob\<lparr>animation_data := Some
          \<lparr>action = None,
           nla_tracks = [\<lparr>track_name = take 63 nm, mute = True,
               strips = [\<lparr>strip_name = take 63 nm, frame_start = 0, strip_action = c\<rparr>]\<rparr>]\<rparr>\<rparr>
        else ob) (objects s)"
    using e o assms(6) unfolding c_def by simp_all
  have "get_object s' t = Some (tgt\<lparr>animation_data := Some
                \<lparr>action = None,
                 nla_tracks = [\<lparr>track_name = take 63 nm, mute = True,
                   strips = [\<lparr>strip_name = take 63 nm, frame_start = 0, strip_action = c\<rparr>]\<rparr>]\<rparr>\<rparr>)"
    using assms(5) unfolding get_object_def s'(2) by (simp add: find_update_same)
  then show "\<exists>s' c. extract_animation fs p nm t s = Inr s'
           \<and> get_object s' t = Some (tgt\<lparr>animation_data := Some
                \<lparr>action = None,
                 nla_tracks = [\<lparr>track_name = take 63 nm, mute = True,
                   strips = [\<lparr>strip_name = take 63 nm, frame_start = 0, strip_action = c\<rparr>]\<rparr>]\<rparr>\<rparr>)"
    using s'(1) by blast
qed

theorem first_track_on_bare_target_witness:
  "nla_tracks_new 1 character_scene = Inl AttributeError
   \<and> (\<exists>s' c. extract_animation freestyle_only ''/models/swim_freestyle.fbx'' ''Swimming'' 1
                character_scene = Inr s'
         \<and> get_object s' 1 = Some
              \<lparr>oid = 1, name = ''Swimmer'', otype = ''ARMATURE'', parent = None, data = Some 1,
               modifiers = [],
               animation_data = Some
                 \<lparr>action = None,
                  nla_tracks = [\<lparr>track_name = ''Swimming'', mute = True,
                    strips = [\<lparr>strip_name = ''Swimming'', frame_start = 0,
                               strip_action = c\<rparr>]\<rparr>]\<rparr>\<rparr>)"
proof -
  have 1: "freestyle_only ''/models/swim_freestyle.fbx'' = Some (FBX freestyle_file)"
    by (simp add: freestyle_only_def)
  have 2: "parents_closed character_scene"
    by (simp add: parents_closed_def character_scene_def)
  have 3: "find (\<lambda>fo. fbx_type fo = ''ARMATURE'') freestyle_file
     = Some \<lparr>fbx_name = ''Armature'', fbx_type = ''ARMATURE'', fbx_parent = None,
              fbx_polygons = [], fbx_modifiers = [],
              fbx_anim = BoundAction ''Armature|mixamo.com|Layer0'' 7\<rparr>"
    by (simp add: freestyle_file_def)
  have 4: "get_object character_scene 1
     = Some \<lparr>oid = 1, name = ''Swimmer'', otype = ''ARMATURE'', parent = None, data = Some 1,
              modifiers = [], animation_data = None\<rparr>"
    by (simp add: get_object_def character_scene_def)
  show ?thesis
    using first_track_on_bare_target [where fs = freestyle_only
        and p = "''/models/swim_freestyle.fbx''" and nm = "''Swimming''"
        and anm = "''Armature|mixamo.com|Layer0''" and cv = 7, OF 1 2 3 _ 4]
    by simp
qed

text \<open>
  C10. When the imported armature has no bound action (no animation data, or animation
  data without an action), the entry is skipped without a trace on the target: the
  objects of the scene are those it had before, each unchanged, so the target has no new
  track and no new animation-data container; nothing is selected any more, the imported
  objects being gone; and the host's actions are the old ones and those the file brought,
  with no copy among them.
\<close>

theorem skipped_entry_leaves_target:
  assumes "fs p = Some (FBX fl)" and "parents_closed s"
    and "find (\<lambda>fo. fbx_type fo = ''ARMATURE'') fl = Some fo"
    and "fbx_anim fo = NoAnimData \<or> fbx_anim fo = NoAction"
    and "get_object s t = Some tgt"
  shows "\<exists>s'. extract_animation fs p nm t s = Inr s'
     \<and> get_object s' t = Some tgt
     \<and> objects s' = objects s
     \<and> selected_objects s' = []
     \<and> forget_users (actions s')
          = forget_users (actions s @ new_actions (fresh (map block_id (actions s))) 0 fl)"
proof -
  from extract_animation_unbound [where fs = fs and p = p and nm = nm and t = t, OF assms(1-4)]
  obtain s' where s': "extract_animation fs p nm t s = Inr s'" "objects s' = objects s"
    "selected s' = []"
    "forget_users (actions s')
       = forget_users (actions s @ new_actions (fresh (map block_id (actions s))) 0 fl)"
    by blast
  have "get_object s' t = Some tgt" using assms(5) s'(2) by (simp add: get_object_def)
  moreover have "selected_objects s' = []" using s'(3) by (simp add: selected_objects_def)
  ultimately show ?thesis using s' by blast
qed

theorem skipped_entry_leaves_target_witness:
  "\<exists>s'. extract_animation still_only ''/models/swim_freestyle.fbx'' ''Swimming'' 1
            character_scene = Inr s'
     \<and> get_object s' 1 = Some \<lparr>oid = 1, name = ''Swimmer'', otype = ''ARMATURE'',
          parent = None, data = Some 1, modifiers = [], animation_data = None\<rparr>
     \<and> objects s' = objects character_scene
     \<and> selected_objects s' = []
     \<and> forget_users (actions s') = []"
proof -
  have 1: "still_only ''/models/swim_freestyle.fbx'' = Some (FBX still_file)"
    by (simp add: still_only_def)
  have 2: "parents_closed character_scene"
    by (simp add: parents_closed_def character_scene_def)
  have 3: "find (\<lambda>fo. fbx_type fo = ''ARMATURE'') still_file
     = Some \<lparr>fbx_name = ''Armature'', fbx_type = ''ARMATURE'', fbx_parent = None,
              fbx_polygons = [], fbx_modifiers = [], fbx_anim = NoAnimData\<rparr>"
    by (simp add: still_file_def)
  have 4: "get_object character_scene 1
     = Some \<lparr>oid = 1, name = ''Swimmer'', otype = ''ARMATURE'', parent = None, data = Some 1,
              modifiers = [], animation_data = None\<rparr>"
    by (simp add: get_object_def character_scene_def)
  have 5: "forget_users (actions character_scene
      @ new_actions (fresh (map block_id (actions character_scene))) 0 still_file) = []"
    by (simp add: character_scene_def still_file_def body_mesh_def forget_users_def)
  show ?thesis
    using skipped_entry_leaves_target [where fs = still_only
        and p = "''/models/swim_freestyle.fbx''" and nm = "''Swimming''", OF 1 2 3 _ 4] 5
    by simp
qed

end
